theory Spec2Isabelle
  imports Main "HOL-Library.Word"
begin

section \<open>Snapshots (pkg/resource/deploy/snapshot.go)\<close>

subsection \<open>Data model\<close>

text \<open>
  A \<open>resource.URN\<close> is a Go string. The type \<open>resource.State\<close> and its status type are
  declared in another package; the record below has the four fields that
  \<open>VerifyIntegrity\<close> reads. The status type has the two named constants the verifier
  compares with; every other value of the type is \<open>ResourceStatusOther n\<close>. The method
  \<open>Status.Live\<close> belongs to that package as well: it is the parameter \<open>Live\<close> of the
  functions below, and every theorem holds for each choice of it.

  Entries of \<open>Resources\<close> are pointers in the source; the model takes them to be non-nil
  (a record per entry), and the snapshot itself to be non-nil, which is what
  \<open>contract.Require\<close> demands at the head of \<open>VerifyIntegrity\<close>.
\<close>

type_synonym URN = string

datatype Status =
    ResourceStatusUnspecified
  | ResourceStatusDeleted
  | ResourceStatusOther nat

record State =
  URN :: URN
  Parent :: URN
  Dependencies :: "URN list"
  Status :: Status

text \<open>
  \<open>time.Time\<close> is an instant, here an integer with the zero value \<open>0\<close>;
  \<open>workspace.PluginInfo\<close> is kept opaque.
\<close>

typedecl PluginInfo

record Manifest =
  Time :: int
  Magic :: string
  Version :: string
  Plugins :: "PluginInfo list"

record Snapshot =
  Stack :: string
  Manifest :: Manifest
  Resources :: "State list"

subsection \<open>The magic cookie\<close>

type_synonym byte = "8 word"

definition bytes_of_string :: "string \<Rightarrow> byte list" where
  "bytes_of_string s = map of_char s"

definition hex_digit :: "nat \<Rightarrow> char" where
  "hex_digit n = ''0123456789abcdef'' ! (n mod 16)"

definition hex_byte :: "byte \<Rightarrow> string" where
  "hex_byte b = [hex_digit (unat b div 16), hex_digit (unat b mod 16)]"

text \<open>\<open>fmt.Sprintf("%x", bs)\<close> on a byte array: two lower-case hex digits per byte.\<close>

definition sprintf_x :: "byte list \<Rightarrow> string" where
  "sprintf_x bs = concat (map hex_byte bs)"

text \<open>
  \<open>NewMagic\<close>; the digest \<open>sha256.Sum256\<close> of the standard library is the parameter
  \<open>sha256\<close>.
\<close>

definition NewMagic :: "(byte list \<Rightarrow> byte list) \<Rightarrow> Manifest \<Rightarrow> string" where
  "NewMagic sha256 m =
     (if Version m = [] then []
      else sprintf_x (sha256 (bytes_of_string (Version m))))"

definition NewSnapshot :: "string \<Rightarrow> Manifest \<Rightarrow> State list \<Rightarrow> Snapshot" where
  "NewSnapshot stack manifest resources =
     \<lparr>Stack = stack, Manifest = manifest, Resources = resources\<rparr>"

subsection \<open>VerifyIntegrity\<close>

text \<open>One constructor per \<open>errors.Errorf\<close> of the source, with the values it formats.\<close>

datatype error =
    MagicMismatch
  | ParentComesAfter URN URN
  | MissingParent URN URN
  | DependencyComesAfter URN URN
  | MissingDependency URN URN
  | StatusUnspecified URN
  | StatusDeleted URN
  | DuplicateLive URN Status

text \<open>
  The parent check of one loop iteration: \<open>urns\<close> is the map built so far, \<open>rest\<close> is
  \<open>snap.Resources[i+1:]\<close>.
\<close>

definition check_parent :: "(URN \<rightharpoonup> State) \<Rightarrow> URN \<Rightarrow> URN \<Rightarrow> State list \<Rightarrow> error option" where
  "check_parent urns urn par rest =
     (if par \<noteq> [] then
        (case urns par of
           Some _ \<Rightarrow> None
         | None \<Rightarrow>
             (case find (\<lambda>other. URN other = par) rest of
                Some _ \<Rightarrow> Some (ParentComesAfter urn par)
              | None \<Rightarrow> Some (MissingParent urn par)))
      else None)"

text \<open>The loop over \<open>state.Dependencies\<close>: it returns at the first one not in \<open>urns\<close>.\<close>

fun check_deps :: "(URN \<rightharpoonup> State) \<Rightarrow> URN \<Rightarrow> URN list \<Rightarrow> State list \<Rightarrow> error option" where
  "check_deps urns urn [] rest = None"
| "check_deps urns urn (dep # deps) rest =
     (case urns dep of
        Some _ \<Rightarrow> check_deps urns urn deps rest
      | None \<Rightarrow>
          (case find (\<lambda>other. URN other = dep) rest of
             Some other \<Rightarrow> Some (DependencyComesAfter urn (URN other))
           | None \<Rightarrow> Some (MissingDependency urn dep)))"

text \<open>
  The loop over \<open>snap.Resources\<close>, with the two maps as accumulators; the list argument is
  the current state followed by \<open>snap.Resources[i+1:]\<close>.
\<close>

fun verify_loop ::
  "(Status \<Rightarrow> bool) \<Rightarrow> (URN \<rightharpoonup> State) \<Rightarrow> (URN \<rightharpoonup> bool) \<Rightarrow> State list \<Rightarrow> error option" where
  "verify_loop Live urns seenLive [] = None"
| "verify_loop Live urns seenLive (state # rest) =
     (let urn = URN state in
      case check_parent urns urn (Parent state) rest of
        Some e \<Rightarrow> Some e
      | None \<Rightarrow>
      (case check_deps urns urn (Dependencies state) rest of
        Some e \<Rightarrow> Some e
      | None \<Rightarrow>
      if Status state = ResourceStatusUnspecified then Some (StatusUnspecified urn)
      else if Status state = ResourceStatusDeleted then Some (StatusDeleted urn)
      else if (case seenLive urn of Some seen \<Rightarrow> seen \<and> Live (Status state) | None \<Rightarrow> False)
        then Some (DuplicateLive urn (Status state))
      else verify_loop Live
             (urns(urn \<mapsto> state))
             (seenLive(urn \<mapsto>
                (case seenLive urn of
                   None \<Rightarrow> Live (Status state)
                 | Some seen \<Rightarrow> seen \<or> Live (Status state))))
             rest))"

text \<open>\<open>None\<close> is the source's \<open>nil\<close> error.\<close>

definition VerifyIntegrity ::
  "(byte list \<Rightarrow> byte list) \<Rightarrow> (Status \<Rightarrow> bool) \<Rightarrow> Snapshot \<Rightarrow> error option" where
  "VerifyIntegrity sha256 Live snap =
     (if Magic (Manifest snap) \<noteq> NewMagic sha256 (Manifest snap) then Some MagicMismatch
      else verify_loop Live Map.empty Map.empty (Resources snap))"

subsection \<open>Clone\<close>

text \<open>
  \<open>Snapshot.Clone\<close> starts from the zero value of \<open>Snapshot\<close>, assigns \<open>Stack\<close> and appends a
  clone of every resource. \<open>State.Clone\<close> belongs to the package of \<open>resource.State\<close>: it is the parameter
  \<open>State_Clone\<close>.
\<close>

definition zero_Manifest :: Manifest where
  "zero_Manifest = \<lparr>Time = 0, Magic = [], Version = [], Plugins = []\<rparr>"

definition zero_Snapshot :: Snapshot where
  "zero_Snapshot = \<lparr>Stack = [], Manifest = zero_Manifest, Resources = []\<rparr>"

definition Clone :: "(State \<Rightarrow> State) \<Rightarrow> Snapshot \<Rightarrow> Snapshot" where
  "Clone State_Clone snap =
     (let newSnap = zero_Snapshot;
          newSnap = newSnap\<lparr>Stack := Stack snap\<rparr>;
          newSnap = newSnap\<lparr>Resources := []\<rparr>;
          newSnap = fold (\<lambda>res ns. ns\<lparr>Resources := Resources ns @ [State_Clone res]\<rparr>)
                         (Resources snap) newSnap
      in newSnap)"

subsection \<open>The invariants, as the specification words them\<close>

text \<open>A URN occurs strictly before index \<open>i\<close>.\<close>

definition occurs_before :: "State list \<Rightarrow> nat \<Rightarrow> URN \<Rightarrow> bool" where
  "occurs_before rs i u = (\<exists>j<i. URN (rs ! j) = u)"

definition parent_earlier :: "State list \<Rightarrow> nat \<Rightarrow> bool" where
  "parent_earlier rs i = (Parent (rs ! i) \<noteq> [] \<longrightarrow> occurs_before rs i (Parent (rs ! i)))"

definition deps_earlier :: "State list \<Rightarrow> nat \<Rightarrow> bool" where
  "deps_earlier rs i = (\<forall>d \<in> set (Dependencies (rs ! i)). occurs_before rs i d)"

definition status_valid :: "State list \<Rightarrow> nat \<Rightarrow> bool" where
  "status_valid rs i =
     (Status (rs ! i) \<noteq> ResourceStatusUnspecified \<and> Status (rs ! i) \<noteq> ResourceStatusDeleted)"

text \<open>Resource \<open>i\<close> is live and an earlier resource with its URN is live too.\<close>

definition second_live :: "(Status \<Rightarrow> bool) \<Rightarrow> State list \<Rightarrow> nat \<Rightarrow> bool" where
  "second_live Live rs i =
     (Live (Status (rs ! i)) \<and>
      (\<exists>j<i. URN (rs ! j) = URN (rs ! i) \<and> Live (Status (rs ! j))))"

definition ordered :: "State list \<Rightarrow> bool" where
  "ordered rs = (\<forall>i<length rs. parent_earlier rs i \<and> deps_earlier rs i)"

definition statuses_valid :: "State list \<Rightarrow> bool" where
  "statuses_valid rs = (\<forall>i<length rs. status_valid rs i)"

definition one_live_per_urn :: "(Status \<Rightarrow> bool) \<Rightarrow> State list \<Rightarrow> bool" where
  "one_live_per_urn Live rs =
     (\<forall>i<length rs. \<forall>j<length rs.
        URN (rs ! i) = URN (rs ! j) \<and> Live (Status (rs ! i)) \<and> Live (Status (rs ! j))
          \<longrightarrow> i = j)"

text \<open>Resource \<open>i\<close> breaks one of the invariants 2 to 5.\<close>

definition violates :: "(Status \<Rightarrow> bool) \<Rightarrow> State list \<Rightarrow> nat \<Rightarrow> bool" where
  "violates Live rs i =
     (\<not> parent_earlier rs i \<or> \<not> deps_earlier rs i \<or> \<not> status_valid rs i \<or> second_live Live rs i)"

text \<open>The URN an error message names first; the magic mismatch names none.\<close>

fun error_urn :: "error \<Rightarrow> URN option" where
  "error_urn MagicMismatch = None"
| "error_urn (ParentComesAfter u _) = Some u"
| "error_urn (MissingParent u _) = Some u"
| "error_urn (DependencyComesAfter u _) = Some u"
| "error_urn (MissingDependency u _) = Some u"
| "error_urn (StatusUnspecified u) = Some u"
| "error_urn (StatusDeleted u) = Some u"
| "error_urn (DuplicateLive u _) = Some u"

text \<open>
  The number, in the specification's list of invariants, of the invariant an error
  reports, and the lowest-numbered invariant among 2 to 5 that resource \<open>i\<close> breaks.
\<close>

fun error_invariant :: "error \<Rightarrow> nat" where
  "error_invariant MagicMismatch = 1"
| "error_invariant (ParentComesAfter _ _) = 2"
| "error_invariant (MissingParent _ _) = 2"
| "error_invariant (DependencyComesAfter _ _) = 3"
| "error_invariant (MissingDependency _ _) = 3"
| "error_invariant (StatusUnspecified _) = 4"
| "error_invariant (StatusDeleted _) = 4"
| "error_invariant (DuplicateLive _ _) = 5"

definition first_violated :: "(Status \<Rightarrow> bool) \<Rightarrow> State list \<Rightarrow> nat \<Rightarrow> nat" where
  "first_violated Live rs i =
     (if \<not> parent_earlier rs i then 2
      else if \<not> deps_earlier rs i then 3
      else if \<not> status_valid rs i then 4
      else 5)"

subsection \<open>The loop invariant\<close>

text \<open>
  After the resources \<open>pre\<close> have been accepted, \<open>urns\<close> has exactly their URNs as keys, and
  \<open>seenLive\<close> tells for each of these URNs whether one of the resources carrying it is live.
\<close>

definition loop_inv ::
  "(Status \<Rightarrow> bool) \<Rightarrow> State list \<Rightarrow> (URN \<rightharpoonup> State) \<Rightarrow> (URN \<rightharpoonup> bool) \<Rightarrow> bool" where
  "loop_inv Live pre urns seenLive =
     ((\<forall>u. (urns u \<noteq> None) = (u \<in> URN ` set pre)) \<and>
      (\<forall>u. seenLive u =
         (if u \<in> URN ` set pre then Some (\<exists>r\<in>set pre. URN r = u \<and> Live (Status r)) else None)))"

text \<open>One iteration of the loop returns an error.\<close>

definition step_fails ::
  "(Status \<Rightarrow> bool) \<Rightarrow> (URN \<rightharpoonup> State) \<Rightarrow> (URN \<rightharpoonup> bool) \<Rightarrow> State \<Rightarrow> State list \<Rightarrow> bool" where
  "step_fails Live urns seenLive x xs =
     (check_parent urns (URN x) (Parent x) xs \<noteq> None \<or>
      check_deps urns (URN x) (Dependencies x) xs \<noteq> None \<or>
      Status x = ResourceStatusUnspecified \<or> Status x = ResourceStatusDeleted \<or>
      (case seenLive (URN x) of Some seen \<Rightarrow> seen \<and> Live (Status x) | None \<Rightarrow> False))"

section \<open>Preview, prompt, execute (pkg/backend/apply.go)\<close>

subsection \<open>Data model\<close>

text \<open>
  The kinds are the keys of \<open>updateTextMap\<close>. The option and operation types are declared
  in other files; the records have the fields that \<open>apply.go\<close> reads or writes.
  \<open>Plan\<close> is a pointer to a \<open>deploy.Plan\<close>: an address in the store of plans below, or nil.
\<close>

datatype UpdateKind =
    PreviewUpdate
  | UpdateUpdate
  | RefreshUpdate
  | DestroyUpdate
  | StackImportUpdate
  | ResourceImportUpdate

record ApplierOptions =
  DryRun :: bool
  ShowLink :: bool

record EngineOptions =
  Plan :: "nat option"
  Experimental :: bool
  GeneratePlan :: bool

record UpdateOptions =
  Engine :: EngineOptions
  AutoApprove :: bool
  SkipPreview :: bool

record UpdateOperation =
  Opts :: UpdateOptions

text \<open>
  A \<open>result.Result\<close> is nil (\<open>None\<close>), a bail, or an error. The errors are the one
  \<open>confirmBeforeUpdating\<close> builds and whatever the applier reports.
\<close>

datatype Failure =
    ConfirmationCancelled UpdateKind string
  | ApplyFailure string

datatype Result =
    Bail
  | FromError Failure

type_synonym ResourceChanges = "(string \<times> int) list"

text \<open>
  An engine event: its type, and the resource type of its payload when the payload is a
  \<open>ResourcePreEventPayload\<close>.
\<close>

datatype EventType =
    ResourcePreEvent
  | ResourceOutputsEvent
  | SummaryEvent
  | OtherEvent nat

record Event =
  Type :: EventType
  Payload :: "string option"

text \<open>What \<open>survey.AskOne\<close> gives back: an error, or the option the user selected.\<close>

datatype Answer =
    AskError string
  | Response string

text \<open>What is written to standard output.\<close>

datatype Output =
    NoResourcesInfo
  | Declined UpdateKind
  | Diff "Event list"

text \<open>
  The observable actions, in order: a call of the applier (with its arguments and the store
  of plans at the time of the call), a prompt (with the choices offered) and a print.
\<close>

datatype 'p Action =
    Applied UpdateKind UpdateOperation ApplierOptions "'p list"
  | Prompted UpdateKind "string list"
  | Printed Output

text \<open>
  The world the functions run in: the store of plan objects (a plan pointer is an index),
  the state \<open>env\<close> of everything else the applier touches, the replies the user is going to
  give, and the actions so far.
\<close>

record ('p, 'w) World =
  plans :: "'p list"
  env :: 'w
  answers :: "Answer list"
  log :: "'p Action list"

text \<open>
  An \<open>Applier\<close>, already given its context and stack (both are passed through unchanged).
  It returns the plan pointer, the changes and the result, the events it sent on the
  channel, and the new store and environment.
\<close>

type_synonym ('p, 'w) Applier =
  "UpdateKind \<Rightarrow> UpdateOperation \<Rightarrow> ApplierOptions \<Rightarrow> 'p list \<Rightarrow> 'w \<Rightarrow>
     (nat option \<times> ResourceChanges \<times> Result option) \<times> Event list \<times> 'p list \<times> 'w"

definition call_apply ::
  "('p, 'w) Applier \<Rightarrow> UpdateKind \<Rightarrow> UpdateOperation \<Rightarrow> ApplierOptions \<Rightarrow> ('p, 'w) World \<Rightarrow>
     (nat option \<times> ResourceChanges \<times> Result option) \<times> Event list \<times> ('p, 'w) World" where
  "call_apply apply kind op opts w =
     (case apply kind op opts (plans w) (env w) of
        (r, evs, ps, e) \<Rightarrow>
          (r, evs, w\<lparr>plans := ps, env := e, log := log w @ [Applied kind op opts (plans w)]\<rparr>))"

text \<open>
  Modelled from the spec: \<open>deploy.Plan.Clone\<close>, whose source is not part of this development. The
  specification calls it a deep clone: a new plan object with the contents of the old one.
  The new object gets the next free address.
\<close>

definition Plan_Clone :: "'p list \<Rightarrow> nat \<Rightarrow> nat \<times> 'p list" where
  "Plan_Clone ps p = (length ps, ps @ [ps ! p])"

subsection \<open>The functions\<close>

definition yes :: string where "yes = ''yes''"
definition no :: string where "no = ''no''"
definition details :: string where "details = ''details''"

primrec countResources :: "Event list \<Rightarrow> nat" where
  "countResources [] = 0"
| "countResources (e # es) =
     (if Type e \<noteq> ResourcePreEvent then countResources es
      else (case Payload e of
              None \<Rightarrow> countResources es
            | Some t \<Rightarrow>
                if t = ''pulumi:pulumi:Stack'' then countResources es
                else Suc (countResources es)))"

text \<open>
  The loop of \<open>confirmBeforeUpdating\<close>, by recursion on the replies still to come; \<open>lg\<close> is
  the log. With no reply left the prompt waits for ever: the value is \<open>None\<close>. The diff
  that \<open>createDiff\<close> renders is printed as \<open>Diff events\<close>.
\<close>

fun confirm_loop ::
  "UpdateKind \<Rightarrow> Event list \<Rightarrow> UpdateOptions \<Rightarrow> Answer list \<Rightarrow> 'p Action list \<Rightarrow>
     (Result option \<times> Answer list \<times> 'p Action list) option" where
  "confirm_loop kind events opts [] lg = None"
| "confirm_loop kind events opts (a # as) lg =
     (let choices = [yes, no] @ (if \<not> SkipPreview opts then [details] else []);
          lg1 = lg @ [Prompted kind choices]
      in case a of
           AskError err \<Rightarrow> Some (Some (FromError (ConfirmationCancelled kind err)), as, lg1)
         | Response response \<Rightarrow>
             if response = no then Some (Some Bail, as, lg1 @ [Printed (Declined kind)])
             else if response = yes then Some (None, as, lg1)
             else if response = details
               then confirm_loop kind events opts as (lg1 @ [Printed (Diff events)])
             else confirm_loop kind events opts as lg1)"

definition confirmBeforeUpdating ::
  "UpdateKind \<Rightarrow> Event list \<Rightarrow> UpdateOptions \<Rightarrow> ('p, 'w) World \<Rightarrow>
     (Result option \<times> ('p, 'w) World) option" where
  "confirmBeforeUpdating kind events opts w =
     (case confirm_loop kind events opts (answers w) (log w) of
        None \<Rightarrow> None
      | Some (res, as, lg) \<Rightarrow> Some (res, w\<lparr>answers := as, log := lg\<rparr>))"

text \<open>
  \<open>PreviewThenPrompt\<close>. The goroutine that collects the events is taken to have stored
  every event of the three types by the time the applier returns.
\<close>

definition PreviewThenPrompt ::
  "('p, 'w) Applier \<Rightarrow> UpdateKind \<Rightarrow> UpdateOperation \<Rightarrow> ('p, 'w) World \<Rightarrow>
     ((nat option \<times> ResourceChanges \<times> Result option) \<times> ('p, 'w) World) option" where
  "PreviewThenPrompt apply kind op w =
     (let opts = \<lparr>DryRun = True, ShowLink = True\<rparr> in
      case call_apply apply kind op opts w of
        ((plan, changes, res), evs, w1) \<Rightarrow>
          (let events = filter (\<lambda>e. Type e = ResourcePreEvent \<or> Type e = ResourceOutputsEvent \<or>
                                     Type e = SummaryEvent) evs
           in if res \<noteq> None then Some ((plan, changes, res), w1)
              else if AutoApprove (Opts op) \<or> kind = PreviewUpdate
                then Some ((plan, changes, None), w1)
              else
                (let w2 = (if kind \<noteq> UpdateUpdate then w1
                           else if countResources events = 0
                             then w1\<lparr>log := log w1 @ [Printed NoResourcesInfo]\<rparr>
                           else w1)
                 in case confirmBeforeUpdating kind events (Opts op) w2 of
                      None \<Rightarrow> None
                    | Some (res', w3) \<Rightarrow> Some ((plan, changes, res'), w3))))"

definition set_Plan :: "UpdateOperation \<Rightarrow> nat option \<Rightarrow> UpdateOperation" where
  "set_Plan op p = op\<lparr>Opts := (Opts op)\<lparr>Engine := (Engine (Opts op))\<lparr>Plan := p\<rparr>\<rparr>\<rparr>"

definition set_GeneratePlan :: "UpdateOperation \<Rightarrow> bool \<Rightarrow> UpdateOperation" where
  "set_GeneratePlan op b = op\<lparr>Opts := (Opts op)\<lparr>Engine := (Engine (Opts op))\<lparr>GeneratePlan := b\<rparr>\<rparr>\<rparr>"

text \<open>The tail of \<open>PreviewThenPromptThenExecute\<close>: the call with \<open>DryRun\<close> false.\<close>

definition execute ::
  "('p, 'w) Applier \<Rightarrow> UpdateKind \<Rightarrow> UpdateOperation \<Rightarrow> ('p, 'w) World \<Rightarrow>
     ((ResourceChanges \<times> Result option) \<times> ('p, 'w) World) option" where
  "execute apply kind op w =
     (let opts = \<lparr>DryRun = False, ShowLink = True\<rparr>;
          op1 = set_GeneratePlan op False
      in case call_apply apply kind op1 opts w of
           ((_, changes, res), _, w1) \<Rightarrow> Some ((changes, res), w1))"

text \<open>
  The first statement under \<open>if !op.Opts.SkipPreview\<close>: \<open>originalPlan\<close> is nil, or a clone
  of the plan of the operation.
\<close>

definition clone_original ::
  "UpdateOperation \<Rightarrow> ('p, 'w) World \<Rightarrow> nat option \<times> ('p, 'w) World" where
  "clone_original op w =
     (case Plan (Engine (Opts op)) of
        Some p \<Rightarrow> (case Plan_Clone (plans w) p of (q, ps) \<Rightarrow> (Some q, w\<lparr>plans := ps\<rparr>))
      | None \<Rightarrow> (None, w))"

definition PreviewThenPromptThenExecute ::
  "('p, 'w) Applier \<Rightarrow> UpdateKind \<Rightarrow> UpdateOperation \<Rightarrow> ('p, 'w) World \<Rightarrow>
     ((ResourceChanges \<times> Result option) \<times> ('p, 'w) World) option" where
  "PreviewThenPromptThenExecute apply kind op w =
     (if \<not> SkipPreview (Opts op) then
        (case clone_original op w of
           (originalPlan, w0) \<Rightarrow>
             (case PreviewThenPrompt apply kind op w0 of
                None \<Rightarrow> None
              | Some ((plan, changes, res), w1) \<Rightarrow>
                  if res \<noteq> None \<or> kind = PreviewUpdate then Some ((changes, res), w1)
                  else
                    (let op1 = (if originalPlan \<noteq> None then set_Plan op originalPlan
                                else if Experimental (Engine (Opts op)) then set_Plan op plan
                                else set_Plan op None)
                     in execute apply kind op1 w1)))
      else execute apply kind op w)"

text \<open>
  The applier leaves alone every plan object it was not handed: it may change the plan its
  operation points to and allocate new ones, nothing else.
\<close>

definition plan_frame :: "('p, 'w) Applier \<Rightarrow> bool" where
  "plan_frame apply =
     (\<forall>kind op opts ps e r evs ps' e'.
        apply kind op opts ps e = (r, evs, ps', e') \<longrightarrow>
          length ps \<le> length ps' \<and>
          (\<forall>a<length ps. Some a \<noteq> Plan (Engine (Opts op)) \<longrightarrow> ps' ! a = ps ! a))"

text \<open>A call of the applier with \<open>DryRun\<close> false.\<close>

fun real_apply :: "'p Action \<Rightarrow> bool" where
  "real_apply (Applied _ _ opts _) = (\<not> DryRun opts)"
| "real_apply _ = False"


section \<open>Worked examples: inputs\<close>

text \<open>
  A stand-in digest and a stand-in liveness predicate, a manifest whose cookie matches under
  that digest, and shorthands for building states and snapshots.
\<close>

definition demo_sha256 :: "byte list \<Rightarrow> byte list" where
  "demo_sha256 bs = bs"

definition demo_Live :: "Status \<Rightarrow> bool" where
  "demo_Live s = (s = ResourceStatusOther 0)"

definition demo_manifest :: Manifest where
  "demo_manifest = \<lparr>Time = 7, Magic = ''7631'', Version = ''v1'', Plugins = []\<rparr>"

definition demo_state :: "URN \<Rightarrow> URN \<Rightarrow> URN list \<Rightarrow> Status \<Rightarrow> State" where
  "demo_state u p ds st = \<lparr>URN = u, Parent = p, Dependencies = ds, Status = st\<rparr>"

definition demo_snapshot :: "State list \<Rightarrow> Snapshot" where
  "demo_snapshot rs = NewSnapshot ''dev'' demo_manifest rs"

text \<open>
  A stand-in applier: it adds one to the plan it is handed, reports one created resource and
  one resource event, and counts its calls in the environment. An operation with the given
  plan pointer, auto-approval and skip-preview flags, and a world with one plan object.
\<close>

definition demo_apply :: "(nat, nat) Applier" where
  "demo_apply kind op opts ps e =
     ((Plan (Engine (Opts op)), [(''create'', 1)], None),
      [\<lparr>Type = ResourcePreEvent, Payload = Some ''aws:s3/bucket:Bucket''\<rparr>],
      (case Plan (Engine (Opts op)) of Some p \<Rightarrow> ps[p := Suc (ps ! p)] | None \<Rightarrow> ps),
      Suc e)"

definition demo_op :: "nat option \<Rightarrow> bool \<Rightarrow> bool \<Rightarrow> UpdateOperation" where
  "demo_op plan auto skip =
     \<lparr>Opts = \<lparr>Engine = \<lparr>Plan = plan, Experimental = False, GeneratePlan = True\<rparr>,
              AutoApprove = auto, SkipPreview = skip\<rparr>\<rparr>"

definition demo_world :: "Answer list \<Rightarrow> (nat, nat) World" where
  "demo_world as = \<lparr>plans = [10], env = 0, answers = as, log = []\<rparr>"

section \<open>Snapshots: proofs\<close>

subsection \<open>The checks of one iteration\<close>

lemma occurs_before_prefix:
  "occurs_before (pre @ rest) (length pre) u \<longleftrightarrow> u \<in> URN ` set pre"
proof
  assume "occurs_before (pre @ rest) (length pre) u"
  then obtain j where j: "j < length pre" "URN ((pre @ rest) ! j) = u"
    unfolding occurs_before_def by blast
  then have "URN (pre ! j) = u" by (simp add: nth_append)
  with j(1) show "u \<in> URN ` set pre" using nth_mem by blast
next
  assume "u \<in> URN ` set pre"
  then obtain r where r: "r \<in> set pre" "URN r = u" by blast
  then obtain j where j: "j < length pre" "pre ! j = r" by (meson in_set_conv_nth)
  then have "URN ((pre @ rest) ! j) = u" using r by (simp add: nth_append)
  with j(1) show "occurs_before (pre @ rest) (length pre) u"
    unfolding occurs_before_def by blast
qed

lemma check_parent_None:
  assumes "\<forall>u. (urns u \<noteq> None) = (u \<in> URN ` set pre)"
  shows "check_parent urns (URN x) (Parent x) xs = None \<longleftrightarrow> parent_earlier (pre @ x # xs) (length pre)"
proof (cases "Parent x = []")
  case True
  then show ?thesis by (simp add: check_parent_def parent_earlier_def)
next
  case False
  have "(urns (Parent x) \<noteq> None) = (Parent x \<in> URN ` set pre)" using assms by blast
  with False show ?thesis
    by (auto simp: check_parent_def parent_earlier_def occurs_before_prefix split: option.splits)
qed

lemma check_deps_None:
  assumes "\<forall>u. (urns u \<noteq> None) = (u \<in> URN ` set pre)"
  shows "check_deps urns urn ds xs = None \<longleftrightarrow> (\<forall>d\<in>set ds. d \<in> URN ` set pre)"
proof (induction ds)
  case Nil
  then show ?case by simp
next
  case (Cons d ds)
  have "(urns d \<noteq> None) = (d \<in> URN ` set pre)" using assms by blast
  with Cons show ?case by (auto split: option.splits)
qed

lemma deps_earlier_prefix:
  "deps_earlier (pre @ x # xs) (length pre) \<longleftrightarrow> (\<forall>d\<in>set (Dependencies x). d \<in> URN ` set pre)"
  by (simp add: deps_earlier_def occurs_before_prefix)

lemma second_live_prefix:
  "second_live Live (pre @ x # xs) (length pre) \<longleftrightarrow>
     Live (Status x) \<and> (\<exists>r\<in>set pre. URN r = URN x \<and> Live (Status r))"
proof -
  have "(\<exists>j<length pre. URN ((pre @ x # xs) ! j) = URN x \<and> Live (Status ((pre @ x # xs) ! j)))
        \<longleftrightarrow> (\<exists>r\<in>set pre. URN r = URN x \<and> Live (Status r))"
  proof
    assume "\<exists>j<length pre. URN ((pre @ x # xs) ! j) = URN x \<and> Live (Status ((pre @ x # xs) ! j))"
    then obtain j where "j < length pre" "URN (pre ! j) = URN x" "Live (Status (pre ! j))"
      by (auto simp: nth_append)
    then show "\<exists>r\<in>set pre. URN r = URN x \<and> Live (Status r)" using nth_mem by blast
  next
    assume "\<exists>r\<in>set pre. URN r = URN x \<and> Live (Status r)"
    then obtain r where r: "r \<in> set pre" "URN r = URN x" "Live (Status r)" by blast
    then obtain j where "j < length pre" "pre ! j = r" by (meson in_set_conv_nth)
    with r show "\<exists>j<length pre. URN ((pre @ x # xs) ! j) = URN x \<and> Live (Status ((pre @ x # xs) ! j))"
      by (auto simp: nth_append)
  qed
  then show ?thesis by (simp add: second_live_def)
qed

lemma check_parent_urn: "check_parent urns urn par xs = Some e \<Longrightarrow> error_urn e = Some urn"
  by (auto simp: check_parent_def split: if_splits option.splits)

lemma check_deps_urn: "check_deps urns urn ds xs = Some e \<Longrightarrow> error_urn e = Some urn"
  by (induction ds) (auto split: if_splits option.splits)

lemma check_parent_invariant:
  "check_parent urns urn par xs = Some e \<Longrightarrow> error_invariant e = 2"
  by (auto simp: check_parent_def split: if_splits option.splits)

lemma check_deps_invariant:
  "check_deps urns urn ds xs = Some e \<Longrightarrow> error_invariant e = 3"
  by (induction ds) (auto split: if_splits option.splits)

subsection \<open>The loop\<close>

lemma loop_inv_empty: "loop_inv Live [] Map.empty Map.empty"
  by (simp add: loop_inv_def)

lemma loop_inv_urns: "loop_inv Live pre urns seenLive \<Longrightarrow> \<forall>u. (urns u \<noteq> None) = (u \<in> URN ` set pre)"
  by (simp add: loop_inv_def)

lemma loop_inv_seen:
  "loop_inv Live pre urns seenLive \<Longrightarrow>
   seenLive u = (if u \<in> URN ` set pre then Some (\<exists>r\<in>set pre. URN r = u \<and> Live (Status r)) else None)"
  by (simp add: loop_inv_def)

lemma seen_cond:
  assumes "loop_inv Live pre urns seenLive"
  shows "(case seenLive (URN x) of Some seen \<Rightarrow> seen \<and> Live (Status x) | None \<Rightarrow> False)
         \<longleftrightarrow> second_live Live (pre @ x # xs) (length pre)"
proof -
  note s = loop_inv_seen [OF assms, of "URN x"]
  show ?thesis
  proof (cases "URN x \<in> URN ` set pre")
    case True
    with s show ?thesis by (auto simp: second_live_prefix)
  next
    case False
    with s have "seenLive (URN x) = None" by simp
    moreover have "\<not> (\<exists>r\<in>set pre. URN r = URN x \<and> Live (Status r))"
      using False by (metis image_eqI)
    ultimately show ?thesis by (simp add: second_live_prefix)
  qed
qed

lemma step_fails_violates:
  assumes "loop_inv Live pre urns seenLive"
  shows "step_fails Live urns seenLive x xs \<longleftrightarrow> violates Live (pre @ x # xs) (length pre)"
proof -
  note u = loop_inv_urns [OF assms]
  have p: "check_parent urns (URN x) (Parent x) xs = None \<longleftrightarrow> parent_earlier (pre @ x # xs) (length pre)"
    by (rule check_parent_None [OF u])
  have d: "check_deps urns (URN x) (Dependencies x) xs = None \<longleftrightarrow> deps_earlier (pre @ x # xs) (length pre)"
    by (simp add: check_deps_None [OF u] deps_earlier_prefix)
  have s: "status_valid (pre @ x # xs) (length pre) \<longleftrightarrow>
           Status x \<noteq> ResourceStatusUnspecified \<and> Status x \<noteq> ResourceStatusDeleted"
    by (simp add: status_valid_def)
  show ?thesis
    using p d s seen_cond [OF assms, of x xs]
    by (auto simp: step_fails_def violates_def)
qed

lemma loop_inv_step:
  assumes "loop_inv Live pre urns seenLive"
  shows "loop_inv Live (pre @ [x]) (urns(URN x \<mapsto> x))
           (seenLive(URN x \<mapsto>
              (case seenLive (URN x) of None \<Rightarrow> Live (Status x) | Some seen \<Rightarrow> seen \<or> Live (Status x))))"
proof -
  note u = loop_inv_urns [OF assms]
  note s = loop_inv_seen [OF assms]
  have a: "\<forall>v. ((urns(URN x \<mapsto> x)) v \<noteq> None) = (v \<in> URN ` set (pre @ [x]))"
    using u by auto
  have b: "(seenLive(URN x \<mapsto>
              (case seenLive (URN x) of None \<Rightarrow> Live (Status x) | Some seen \<Rightarrow> seen \<or> Live (Status x)))) v
           = (if v \<in> URN ` set (pre @ [x])
              then Some (\<exists>r\<in>set (pre @ [x]). URN r = v \<and> Live (Status r)) else None)" for v
  proof (cases "v = URN x")
    case True
    show ?thesis
    proof (cases "URN x \<in> URN ` set pre")
      case True
      with s [of "URN x"] \<open>v = URN x\<close> show ?thesis by auto
    next
      case False
      then have "\<not> (\<exists>r\<in>set pre. URN r = URN x \<and> Live (Status r))"
        by (metis image_eqI)
      with False s [of "URN x"] \<open>v = URN x\<close> show ?thesis by auto
    qed
  next
    case False
    with s [of v] show ?thesis by auto
  qed
  show ?thesis unfolding loop_inv_def using a b by blast
qed

lemma verify_loop_step:
  "verify_loop Live urns seenLive (x # xs) =
     (if step_fails Live urns seenLive x xs then
        (case check_parent urns (URN x) (Parent x) xs of
           Some e \<Rightarrow> Some e
         | None \<Rightarrow>
        (case check_deps urns (URN x) (Dependencies x) xs of
           Some e \<Rightarrow> Some e
         | None \<Rightarrow>
           if Status x = ResourceStatusUnspecified then Some (StatusUnspecified (URN x))
           else if Status x = ResourceStatusDeleted then Some (StatusDeleted (URN x))
           else Some (DuplicateLive (URN x) (Status x))))
      else verify_loop Live (urns(URN x \<mapsto> x))
             (seenLive(URN x \<mapsto>
                (case seenLive (URN x) of None \<Rightarrow> Live (Status x) | Some seen \<Rightarrow> seen \<or> Live (Status x))))
             xs)"
  by (auto simp: step_fails_def Let_def split: option.splits)

lemma step_fails_error:
  assumes inv: "loop_inv Live pre urns seenLive"
    and fails: "step_fails Live urns seenLive x xs"
  shows "\<exists>e. verify_loop Live urns seenLive (x # xs) = Some e \<and> error_urn e = Some (URN x) \<and>
             error_invariant e = first_violated Live (pre @ x # xs) (length pre)"
proof -
  note u = loop_inv_urns [OF inv]
  have p: "check_parent urns (URN x) (Parent x) xs = None \<longleftrightarrow> parent_earlier (pre @ x # xs) (length pre)"
    by (rule check_parent_None [OF u])
  have d: "check_deps urns (URN x) (Dependencies x) xs = None \<longleftrightarrow> deps_earlier (pre @ x # xs) (length pre)"
    by (simp add: check_deps_None [OF u] deps_earlier_prefix)
  have s: "status_valid (pre @ x # xs) (length pre) \<longleftrightarrow>
           Status x \<noteq> ResourceStatusUnspecified \<and> Status x \<noteq> ResourceStatusDeleted"
    by (simp add: status_valid_def)
  show ?thesis
  proof (cases "check_parent urns (URN x) (Parent x) xs")
    case (Some e)
    have "first_violated Live (pre @ x # xs) (length pre) = 2"
      using Some p by (simp add: first_violated_def)
    then show ?thesis
      using Some check_parent_urn [OF Some] check_parent_invariant [OF Some] by simp
  next
    case None
    note np = None
    show ?thesis
    proof (cases "check_deps urns (URN x) (Dependencies x) xs")
      case (Some e)
      have "first_violated Live (pre @ x # xs) (length pre) = 3"
        using Some np p d by (simp add: first_violated_def)
      then show ?thesis
        using Some np check_deps_urn [OF Some] check_deps_invariant [OF Some] by simp
    next
      case None
      have fv: "first_violated Live (pre @ x # xs) (length pre) =
              (if Status x = ResourceStatusUnspecified \<or> Status x = ResourceStatusDeleted then 4 else 5)"
        using None np p d s by (simp add: first_violated_def)
      show ?thesis
        using None np fails fv by (simp add: verify_loop_step del: verify_loop.simps)
    qed
  qed
qed

text \<open>
  What the loop returns, started after the accepted resources \<open>pre\<close>: no error if no
  remaining resource breaks an invariant, and otherwise the error of the first one that does.
\<close>

lemma verify_loop_char:
  assumes "loop_inv Live pre urns seenLive"
  shows "case verify_loop Live urns seenLive rest of
           None \<Rightarrow> (\<forall>i<length rest. \<not> violates Live (pre @ rest) (length pre + i))
         | Some e \<Rightarrow>
             (\<exists>i<length rest. violates Live (pre @ rest) (length pre + i) \<and>
                (\<forall>j<i. \<not> violates Live (pre @ rest) (length pre + j)) \<and>
                error_urn e = Some (URN (rest ! i)) \<and>
                error_invariant e = first_violated Live (pre @ rest) (length pre + i))"
  using assms
proof (induction rest arbitrary: pre urns seenLive)
  case Nil
  then show ?case by simp
next
  case (Cons x xs)
  note sv = step_fails_violates [OF Cons.prems, of x xs]
  show ?case
  proof (cases "step_fails Live urns seenLive x xs")
    case True
    then obtain e where e: "verify_loop Live urns seenLive (x # xs) = Some e"
        "error_urn e = Some (URN x)"
        "error_invariant e = first_violated Live (pre @ x # xs) (length pre)"
      using step_fails_error [OF Cons.prems True] by blast
    have "violates Live (pre @ x # xs) (length pre + 0)" using True sv by simp
    moreover have "\<forall>j<(0::nat). \<not> violates Live (pre @ x # xs) (length pre + j)" by simp
    moreover have "error_urn e = Some (URN ((x # xs) ! 0))" using e(2) by simp
    moreover have "error_invariant e = first_violated Live (pre @ x # xs) (length pre + 0)"
      using e(3) by simp
    moreover have "(0::nat) < length (x # xs)" by simp
    ultimately have "\<exists>i<length (x # xs). violates Live (pre @ x # xs) (length pre + i) \<and>
                (\<forall>j<i. \<not> violates Live (pre @ x # xs) (length pre + j)) \<and>
                error_urn e = Some (URN ((x # xs) ! i)) \<and>
                error_invariant e = first_violated Live (pre @ x # xs) (length pre + i)" by blast
    with e(1) show ?thesis by simp
  next
    case False
    let ?urns = "urns(URN x \<mapsto> x)"
    let ?seen = "seenLive(URN x \<mapsto>
                (case seenLive (URN x) of None \<Rightarrow> Live (Status x) | Some seen \<Rightarrow> seen \<or> Live (Status x)))"
    have eq: "verify_loop Live urns seenLive (x # xs) = verify_loop Live ?urns ?seen xs"
      using False by (simp add: verify_loop_step del: verify_loop.simps)
    have nv: "\<not> violates Live (pre @ x # xs) (length pre)" using False sv by simp
    have inv': "loop_inv Live (pre @ [x]) ?urns ?seen"
      by (rule loop_inv_step [OF Cons.prems])
    have ih: "case verify_loop Live ?urns ?seen xs of
           None \<Rightarrow> (\<forall>i<length xs. \<not> violates Live ((pre @ [x]) @ xs) (length (pre @ [x]) + i))
         | Some e \<Rightarrow>
             (\<exists>i<length xs. violates Live ((pre @ [x]) @ xs) (length (pre @ [x]) + i) \<and>
                (\<forall>j<i. \<not> violates Live ((pre @ [x]) @ xs) (length (pre @ [x]) + j)) \<and>
                error_urn e = Some (URN (xs ! i)) \<and>
                error_invariant e = first_violated Live ((pre @ [x]) @ xs) (length (pre @ [x]) + i))"
      by (rule Cons.IH [OF inv'])
    have app: "(pre @ [x]) @ xs = pre @ x # xs" by simp
    show ?thesis
    proof (cases "verify_loop Live ?urns ?seen xs")
      case None
      with ih have a: "\<forall>i<length xs. \<not> violates Live (pre @ x # xs) (Suc (length pre) + i)"
        by (simp add: app)
      have "\<not> violates Live (pre @ x # xs) (length pre + i)" if "i < length (x # xs)" for i
      proof (cases i)
        case 0
        then show ?thesis using nv by simp
      next
        case (Suc k)
        with that a show ?thesis by simp
      qed
      with None eq show ?thesis by simp
    next
      case (Some e)
      with ih obtain i where i: "i < length xs"
          "violates Live (pre @ x # xs) (Suc (length pre) + i)"
          "\<forall>j<i. \<not> violates Live (pre @ x # xs) (Suc (length pre) + j)"
          "error_urn e = Some (URN (xs ! i))"
          "error_invariant e = first_violated Live (pre @ x # xs) (Suc (length pre) + i)"
        by (auto simp: app)
      have b: "\<not> violates Live (pre @ x # xs) (length pre + j)" if "j < Suc i" for j
      proof (cases j)
        case 0
        then show ?thesis using nv by simp
      next
        case (Suc k)
        with that i(3) show ?thesis by simp
      qed
      have "Suc i < length (x # xs)" using i(1) by simp
      moreover have "violates Live (pre @ x # xs) (length pre + Suc i)" using i(2) by simp
      moreover have "error_urn e = Some (URN ((x # xs) ! Suc i))" using i(4) by simp
      moreover have "error_invariant e = first_violated Live (pre @ x # xs) (length pre + Suc i)"
        using i(5) by simp
      ultimately have "\<exists>i<length (x # xs). violates Live (pre @ x # xs) (length pre + i) \<and>
                (\<forall>j<i. \<not> violates Live (pre @ x # xs) (length pre + j)) \<and>
                error_urn e = Some (URN ((x # xs) ! i)) \<and>
                error_invariant e = first_violated Live (pre @ x # xs) (length pre + i)" using b by blast
      with Some eq show ?thesis by simp
    qed
  qed
qed

subsection \<open>The whole snapshot\<close>

lemma verify_loop_None_iff:
  "verify_loop Live Map.empty Map.empty rs = None \<longleftrightarrow> (\<forall>i<length rs. \<not> violates Live rs i)"
proof -
  note c = verify_loop_char [of Live "[]" Map.empty Map.empty rs, OF loop_inv_empty]
  show ?thesis
  proof (cases "verify_loop Live Map.empty Map.empty rs")
    case None
    with c show ?thesis by simp
  next
    case (Some e)
    with c show ?thesis by auto
  qed
qed

lemma verify_loop_Some:
  assumes "verify_loop Live Map.empty Map.empty rs = Some e"
  shows "\<exists>i<length rs. violates Live rs i \<and> (\<forall>j<i. \<not> violates Live rs j) \<and>
           error_urn e = Some (URN (rs ! i)) \<and> error_invariant e = first_violated Live rs i"
  using verify_loop_char [of Live "[]" Map.empty Map.empty rs, OF loop_inv_empty] assms by simp

lemma one_live_iff:
  "one_live_per_urn Live rs \<longleftrightarrow> (\<forall>i<length rs. \<not> second_live Live rs i)"
proof
  assume a: "one_live_per_urn Live rs"
  show "\<forall>i<length rs. \<not> second_live Live rs i"
  proof (intro allI impI notI)
    fix i assume i: "i < length rs" and "second_live Live rs i"
    then obtain j where j: "j < i" "URN (rs ! j) = URN (rs ! i)" "Live (Status (rs ! j))"
        "Live (Status (rs ! i))"
      unfolding second_live_def by blast
    have "j < length rs" using j(1) i by simp
    with a i j have "i = j" unfolding one_live_per_urn_def by metis
    with j(1) show False by simp
  qed
next
  assume a: "\<forall>i<length rs. \<not> second_live Live rs i"
  have key: "\<not> (j < i)" if "i < length rs" "URN (rs ! i) = URN (rs ! j)"
      "Live (Status (rs ! i))" "Live (Status (rs ! j))" for i j
  proof
    assume "j < i"
    with that have "second_live Live rs i" unfolding second_live_def by auto
    with a that(1) show False by blast
  qed
  show "one_live_per_urn Live rs"
    unfolding one_live_per_urn_def
  proof (intro allI impI)
    fix i j
    assume i: "i < length rs" and j: "j < length rs"
      and h: "URN (rs ! i) = URN (rs ! j) \<and> Live (Status (rs ! i)) \<and> Live (Status (rs ! j))"
    have "\<not> j < i" using key [OF i] h by blast
    moreover have "\<not> i < j" using key [OF j, of i] h by simp
    ultimately show "i = j" by simp
  qed
qed

lemma no_violation_iff:
  "(\<forall>i<length rs. \<not> violates Live rs i) \<longleftrightarrow>
     ordered rs \<and> statuses_valid rs \<and> one_live_per_urn Live rs"
  unfolding one_live_iff ordered_def statuses_valid_def violates_def by blast

lemma verify_loop_accepts_iff:
  "verify_loop Live Map.empty Map.empty rs = None \<longleftrightarrow>
     ordered rs \<and> statuses_valid rs \<and> one_live_per_urn Live rs"
  by (simp only: verify_loop_None_iff no_violation_iff)

lemma VerifyIntegrity_accepts_iff:
  "VerifyIntegrity sha256 Live snap = None \<longleftrightarrow>
     Magic (Manifest snap) = NewMagic sha256 (Manifest snap) \<and>
     ordered (Resources snap) \<and> statuses_valid (Resources snap) \<and>
     one_live_per_urn Live (Resources snap)"
  by (simp add: VerifyIntegrity_def verify_loop_accepts_iff)

subsection \<open>Evaluating the examples\<close>

lemma demo_magic: "NewMagic demo_sha256 demo_manifest = ''7631''"
  by (simp add: NewMagic_def demo_sha256_def demo_manifest_def sprintf_x_def hex_byte_def
      hex_digit_def bytes_of_string_def)

lemma demo_Magic: "Magic demo_manifest = ''7631''"
  by (simp add: demo_manifest_def)

lemmas demo_defs = VerifyIntegrity_def demo_snapshot_def NewSnapshot_def demo_magic demo_Magic
  demo_state_def demo_Live_def check_parent_def

lemmas demo_spec_defs = ordered_def statuses_valid_def one_live_per_urn_def parent_earlier_def
  deps_earlier_def occurs_before_def status_valid_def demo_snapshot_def NewSnapshot_def
  demo_state_def demo_Live_def All_less_Suc Ex_less_Suc

subsection \<open>The claims about snapshots\<close>

text \<open>
  Claim C1. A snapshot that \<open>VerifyIntegrity\<close> accepts is ordered: the parent of every
  resource (when it is not the empty string) and each of its dependencies is the URN of a
  resource at a strictly lower index. Conversely, a snapshot in which some parent or
  dependency does not occur strictly earlier gets an error.
\<close>

theorem VerifyIntegrity_ordering:
  "(VerifyIntegrity sha256 Live snap = None \<longrightarrow> ordered (Resources snap)) \<and>
   (\<not> ordered (Resources snap) \<longrightarrow> (\<exists>e. VerifyIntegrity sha256 Live snap = Some e))"
  using VerifyIntegrity_accepts_iff [of sha256 Live snap] by (cases "VerifyIntegrity sha256 Live snap") auto

theorem VerifyIntegrity_ordering_witness:
  "VerifyIntegrity demo_sha256 demo_Live
     (demo_snapshot [demo_state ''a'' [] [] (ResourceStatusOther 0),
                     demo_state ''b'' ''a'' [''a''] (ResourceStatusOther 0)]) = None \<and>
   ordered (Resources
     (demo_snapshot [demo_state ''a'' [] [] (ResourceStatusOther 0),
                     demo_state ''b'' ''a'' [''a''] (ResourceStatusOther 0)])) \<and>
   \<not> ordered (Resources
     (demo_snapshot [demo_state ''b'' ''a'' [''a''] (ResourceStatusOther 0),
                     demo_state ''a'' [] [] (ResourceStatusOther 0)])) \<and>
   (\<exists>e. VerifyIntegrity demo_sha256 demo_Live
     (demo_snapshot [demo_state ''b'' ''a'' [''a''] (ResourceStatusOther 0),
                     demo_state ''a'' [] [] (ResourceStatusOther 0)]) = Some e)"
proof -
  let ?good = "demo_snapshot [demo_state ''a'' [] [] (ResourceStatusOther 0),
                     demo_state ''b'' ''a'' [''a''] (ResourceStatusOther 0)]"
  let ?bad = "demo_snapshot [demo_state ''b'' ''a'' [''a''] (ResourceStatusOther 0),
                     demo_state ''a'' [] [] (ResourceStatusOther 0)]"
  have acc: "VerifyIntegrity demo_sha256 demo_Live ?good = None"
    by (simp add: demo_defs)
  have unord: "\<not> ordered (Resources ?bad)"
    by (simp add: demo_spec_defs)
  from VerifyIntegrity_ordering [of demo_sha256 demo_Live ?good] acc
  have "ordered (Resources ?good)" by blast
  moreover from VerifyIntegrity_ordering [of demo_sha256 demo_Live ?bad] unord
  have "\<exists>e. VerifyIntegrity demo_sha256 demo_Live ?bad = Some e" by blast
  ultimately show ?thesis using acc unord by blast
qed

text \<open>
  Claim C2. In a snapshot that \<open>VerifyIntegrity\<close> accepts, no two resources with the same
  URN are both live; a snapshot with two live resources of one URN gets an error; and a
  snapshot that meets the other invariants is accepted whenever at most one resource per
  URN is live, however many resources share a URN. The example accepts two resources with
  the URN \<open>a\<close>, of which the second alone is live.
\<close>

theorem VerifyIntegrity_one_live:
  "(VerifyIntegrity sha256 Live snap = None \<longrightarrow> one_live_per_urn Live (Resources snap)) \<and>
   (\<not> one_live_per_urn Live (Resources snap) \<longrightarrow> (\<exists>e. VerifyIntegrity sha256 Live snap = Some e)) \<and>
   (Magic (Manifest snap) = NewMagic sha256 (Manifest snap) \<and> ordered (Resources snap) \<and>
    statuses_valid (Resources snap) \<and> one_live_per_urn Live (Resources snap)
      \<longrightarrow> VerifyIntegrity sha256 Live snap = None)"
  using VerifyIntegrity_accepts_iff [of sha256 Live snap] by (cases "VerifyIntegrity sha256 Live snap") auto

theorem VerifyIntegrity_one_live_witness:
  "VerifyIntegrity demo_sha256 demo_Live
     (demo_snapshot [demo_state ''a'' [] [] (ResourceStatusOther 1),
                     demo_state ''a'' [] [] (ResourceStatusOther 0)]) = None \<and>
   \<not> distinct (map URN (Resources
     (demo_snapshot [demo_state ''a'' [] [] (ResourceStatusOther 1),
                     demo_state ''a'' [] [] (ResourceStatusOther 0)]))) \<and>
   one_live_per_urn demo_Live (Resources
     (demo_snapshot [demo_state ''a'' [] [] (ResourceStatusOther 1),
                     demo_state ''a'' [] [] (ResourceStatusOther 0)])) \<and>
   \<not> one_live_per_urn demo_Live (Resources
     (demo_snapshot [demo_state ''a'' [] [] (ResourceStatusOther 0),
                     demo_state ''a'' [] [] (ResourceStatusOther 0)])) \<and>
   (\<exists>e. VerifyIntegrity demo_sha256 demo_Live
     (demo_snapshot [demo_state ''a'' [] [] (ResourceStatusOther 0),
                     demo_state ''a'' [] [] (ResourceStatusOther 0)]) = Some e)"
proof -
  let ?dup = "demo_snapshot [demo_state ''a'' [] [] (ResourceStatusOther 1),
                     demo_state ''a'' [] [] (ResourceStatusOther 0)]"
  let ?two = "demo_snapshot [demo_state ''a'' [] [] (ResourceStatusOther 0),
                     demo_state ''a'' [] [] (ResourceStatusOther 0)]"
  have m: "Magic (Manifest ?dup) = NewMagic demo_sha256 (Manifest ?dup)"
    by (simp add: demo_snapshot_def NewSnapshot_def demo_magic demo_Magic)
  have o: "ordered (Resources ?dup)" by (simp add: demo_spec_defs)
  have v: "statuses_valid (Resources ?dup)" by (simp add: demo_spec_defs)
  have l: "one_live_per_urn demo_Live (Resources ?dup)" by (simp add: demo_spec_defs)
  have d: "\<not> distinct (map URN (Resources ?dup))" by (simp add: demo_spec_defs)
  have n: "\<not> one_live_per_urn demo_Live (Resources ?two)" by (simp add: demo_spec_defs)
  from VerifyIntegrity_one_live [of demo_sha256 demo_Live ?dup] m o v l
  have "VerifyIntegrity demo_sha256 demo_Live ?dup = None" by blast
  moreover from VerifyIntegrity_one_live [of demo_sha256 demo_Live ?two] n
  have "\<exists>e. VerifyIntegrity demo_sha256 demo_Live ?two = Some e" by blast
  ultimately show ?thesis using d l n by blast
qed

lemma Clone_fold:
  "fold (\<lambda>res ns. ns\<lparr>Resources := Resources ns @ [sc res]\<rparr>) rs ns
     = ns\<lparr>Resources := Resources ns @ map sc rs\<rparr>"
  by (induction rs arbitrary: ns) simp_all

lemma Clone_eq:
  "Clone sc snap = \<lparr>Stack = Stack snap, Manifest = zero_Manifest, Resources = map sc (Resources snap)\<rparr>"
  by (simp add: Clone_def Clone_fold zero_Snapshot_def)

text \<open>
  Claim C3. \<open>Clone\<close> is to preserve every field of the snapshot. It copies \<open>Stack\<close> and the
  resources but leaves \<open>Manifest\<close> at its zero value: the clone of a snapshot with a
  manifest that is not the zero value has a different manifest.
\<close>

theorem Clone_drops_Manifest:
  "Manifest (Clone (\<lambda>res. res) (demo_snapshot [])) = zero_Manifest \<and>
   Manifest (Clone (\<lambda>res. res) (demo_snapshot [])) \<noteq> Manifest (demo_snapshot [])"
  by (simp add: Clone_eq demo_snapshot_def NewSnapshot_def demo_manifest_def zero_Manifest_def)

text \<open>
  Claim C4. \<open>VerifyIntegrity\<close> returns one error, the first: a cookie mismatch is reported
  whatever the resources are, and otherwise the error names the URN of the resource at the
  lowest index that breaks an invariant, and reports the lowest-numbered invariant that
  this resource breaks.
\<close>

theorem VerifyIntegrity_fail_fast:
  "(Magic (Manifest snap) \<noteq> NewMagic sha256 (Manifest snap) \<longrightarrow>
      VerifyIntegrity sha256 Live snap = Some MagicMismatch) \<and>
   (Magic (Manifest snap) = NewMagic sha256 (Manifest snap) \<and>
    VerifyIntegrity sha256 Live snap = Some e \<longrightarrow>
      (\<exists>i<length (Resources snap).
         violates Live (Resources snap) i \<and>
         (\<forall>j<i. \<not> violates Live (Resources snap) j) \<and>
         error_urn e = Some (URN (Resources snap ! i)) \<and>
         error_invariant e = first_violated Live (Resources snap) i))"
proof (intro conjI impI)
  assume "Magic (Manifest snap) \<noteq> NewMagic sha256 (Manifest snap)"
  then show "VerifyIntegrity sha256 Live snap = Some MagicMismatch"
    by (simp add: VerifyIntegrity_def)
next
  assume "Magic (Manifest snap) = NewMagic sha256 (Manifest snap) \<and>
    VerifyIntegrity sha256 Live snap = Some e"
  then have "verify_loop Live Map.empty Map.empty (Resources snap) = Some e"
    by (auto simp: VerifyIntegrity_def)
  then show "\<exists>i<length (Resources snap).
         violates Live (Resources snap) i \<and>
         (\<forall>j<i. \<not> violates Live (Resources snap) j) \<and>
         error_urn e = Some (URN (Resources snap ! i)) \<and>
         error_invariant e = first_violated Live (Resources snap) i"
    by (rule verify_loop_Some)
qed

theorem VerifyIntegrity_fail_fast_witness:
  "VerifyIntegrity demo_sha256 demo_Live
     (NewSnapshot ''dev'' (demo_manifest\<lparr>Magic := ''0000''\<rparr>)
        [demo_state ''b'' ''p'' [] ResourceStatusDeleted]) = Some MagicMismatch \<and>
   VerifyIntegrity demo_sha256 demo_Live
     (demo_snapshot [demo_state ''a'' [] [] (ResourceStatusOther 0),
                     demo_state ''b'' ''p'' [] ResourceStatusUnspecified,
                     demo_state ''c'' [] [''z''] ResourceStatusDeleted]) = Some (MissingParent ''b'' ''p'') \<and>
   (\<exists>i<3. violates demo_Live
             [demo_state ''a'' [] [] (ResourceStatusOther 0),
              demo_state ''b'' ''p'' [] ResourceStatusUnspecified,
              demo_state ''c'' [] [''z''] ResourceStatusDeleted] i \<and>
          (\<forall>j<i. \<not> violates demo_Live
             [demo_state ''a'' [] [] (ResourceStatusOther 0),
              demo_state ''b'' ''p'' [] ResourceStatusUnspecified,
              demo_state ''c'' [] [''z''] ResourceStatusDeleted] j) \<and>
          URN ([demo_state ''a'' [] [] (ResourceStatusOther 0),
              demo_state ''b'' ''p'' [] ResourceStatusUnspecified,
              demo_state ''c'' [] [''z''] ResourceStatusDeleted] ! i) = ''b'' \<and>
          first_violated demo_Live
             [demo_state ''a'' [] [] (ResourceStatusOther 0),
              demo_state ''b'' ''p'' [] ResourceStatusUnspecified,
              demo_state ''c'' [] [''z''] ResourceStatusDeleted] i = 2)"
proof -
  let ?tampered = "NewSnapshot ''dev'' (demo_manifest\<lparr>Magic := ''0000''\<rparr>)
        [demo_state ''b'' ''p'' [] ResourceStatusDeleted]"
  let ?rs = "[demo_state ''a'' [] [] (ResourceStatusOther 0),
              demo_state ''b'' ''p'' [] ResourceStatusUnspecified,
              demo_state ''c'' [] [''z''] ResourceStatusDeleted]"
  have nm: "NewMagic demo_sha256 (demo_manifest\<lparr>Magic := ''0000''\<rparr>) = ''7631''"
  proof -
    have "NewMagic demo_sha256 (demo_manifest\<lparr>Magic := ''0000''\<rparr>) = NewMagic demo_sha256 demo_manifest"
      by (simp add: NewMagic_def)
    then show ?thesis by (simp only: demo_magic)
  qed
  have mm: "Magic (Manifest ?tampered) \<noteq> NewMagic demo_sha256 (Manifest ?tampered)"
    by (simp add: NewSnapshot_def nm)
  have m: "Magic (Manifest (demo_snapshot ?rs)) = NewMagic demo_sha256 (Manifest (demo_snapshot ?rs))"
    by (simp add: demo_snapshot_def NewSnapshot_def demo_magic demo_Magic)
  have e: "VerifyIntegrity demo_sha256 demo_Live (demo_snapshot ?rs) = Some (MissingParent ''b'' ''p'')"
    by (simp add: demo_defs)
  have r: "Resources (demo_snapshot ?rs) = ?rs" by (simp add: demo_snapshot_def NewSnapshot_def)
  from VerifyIntegrity_fail_fast [of ?tampered demo_sha256 demo_Live] mm
  have first: "VerifyIntegrity demo_sha256 demo_Live ?tampered = Some MagicMismatch" by blast
  from VerifyIntegrity_fail_fast [of "demo_snapshot ?rs" demo_sha256 demo_Live "MissingParent ''b'' ''p''"] m e
  have "\<exists>i<length ?rs. violates demo_Live ?rs i \<and> (\<forall>j<i. \<not> violates demo_Live ?rs j) \<and>
          error_urn (MissingParent ''b'' ''p'') = Some (URN (?rs ! i)) \<and>
          error_invariant (MissingParent ''b'' ''p'') = first_violated demo_Live ?rs i"
    unfolding r by blast
  then obtain i where i: "i < length ?rs" "violates demo_Live ?rs i"
      "\<forall>j<i. \<not> violates demo_Live ?rs j"
      "error_urn (MissingParent ''b'' ''p'') = Some (URN (?rs ! i))"
      "error_invariant (MissingParent ''b'' ''p'') = first_violated demo_Live ?rs i"
    by blast
  have "i < 3" using i(1) by simp
  moreover have "URN (?rs ! i) = ''b''" using i(4) by simp
  moreover have "first_violated demo_Live ?rs i = 2" using i(5) by simp
  ultimately have "\<exists>i<3. violates demo_Live ?rs i \<and> (\<forall>j<i. \<not> violates demo_Live ?rs j) \<and>
          URN (?rs ! i) = ''b'' \<and> first_violated demo_Live ?rs i = 2"
    using i(2,3) by blast
  with first e show ?thesis by blast
qed

lemma status_error_needs_invalid:
  assumes "VerifyIntegrity sha256 Live snap = Some e" "error_invariant e = 4"
  shows "\<not> statuses_valid (Resources snap)"
proof -
  have "e \<noteq> MagicMismatch" using assms(2) by auto
  with assms(1) have "verify_loop Live Map.empty Map.empty (Resources snap) = Some e"
    by (auto simp: VerifyIntegrity_def split: if_splits)
  from verify_loop_Some [OF this] obtain i where i: "i < length (Resources snap)"
      "error_invariant e = first_violated Live (Resources snap) i" by blast
  with assms(2) have "first_violated Live (Resources snap) i = 4" by simp
  then have "\<not> status_valid (Resources snap) i"
    by (auto simp: first_violated_def split: if_splits)
  with i(1) show ?thesis unfolding statuses_valid_def by blast
qed

text \<open>
  Claim C5. A snapshot with a resource of status \<open>Unspecified\<close> or \<open>Deleted\<close> gets an error;
  a snapshot without such a resource never gets one of the two status errors.
\<close>

theorem VerifyIntegrity_status:
  "(\<not> statuses_valid (Resources snap) \<longrightarrow> (\<exists>e. VerifyIntegrity sha256 Live snap = Some e)) \<and>
   (statuses_valid (Resources snap) \<longrightarrow>
      VerifyIntegrity sha256 Live snap \<noteq> Some (StatusUnspecified u) \<and>
      VerifyIntegrity sha256 Live snap \<noteq> Some (StatusDeleted u))"
proof (intro conjI impI)
  assume "\<not> statuses_valid (Resources snap)"
  then have "VerifyIntegrity sha256 Live snap \<noteq> None"
    using VerifyIntegrity_accepts_iff [of sha256 Live snap] by blast
  then show "\<exists>e. VerifyIntegrity sha256 Live snap = Some e" by auto
next
  assume "statuses_valid (Resources snap)"
  then show "VerifyIntegrity sha256 Live snap \<noteq> Some (StatusUnspecified u)"
    using status_error_needs_invalid [of sha256 Live snap "StatusUnspecified u"] by auto
next
  assume "statuses_valid (Resources snap)"
  then show "VerifyIntegrity sha256 Live snap \<noteq> Some (StatusDeleted u)"
    using status_error_needs_invalid [of sha256 Live snap "StatusDeleted u"] by auto
qed

theorem VerifyIntegrity_status_witness:
  "\<not> statuses_valid (Resources
     (demo_snapshot [demo_state ''a'' [] [] (ResourceStatusOther 0),
                     demo_state ''b'' [] [] ResourceStatusDeleted])) \<and>
   (\<exists>e. VerifyIntegrity demo_sha256 demo_Live
     (demo_snapshot [demo_state ''a'' [] [] (ResourceStatusOther 0),
                     demo_state ''b'' [] [] ResourceStatusDeleted]) = Some e) \<and>
   statuses_valid (Resources
     (demo_snapshot [demo_state ''a'' [] [] (ResourceStatusOther 0),
                     demo_state ''a'' [] [] (ResourceStatusOther 0)])) \<and>
   VerifyIntegrity demo_sha256 demo_Live
     (demo_snapshot [demo_state ''a'' [] [] (ResourceStatusOther 0),
                     demo_state ''a'' [] [] (ResourceStatusOther 0)]) \<noteq> Some (StatusUnspecified ''a'') \<and>
   VerifyIntegrity demo_sha256 demo_Live
     (demo_snapshot [demo_state ''a'' [] [] (ResourceStatusOther 0),
                     demo_state ''a'' [] [] (ResourceStatusOther 0)]) \<noteq> Some (StatusDeleted ''a'')"
proof -
  let ?del = "demo_snapshot [demo_state ''a'' [] [] (ResourceStatusOther 0),
                     demo_state ''b'' [] [] ResourceStatusDeleted]"
  let ?two = "demo_snapshot [demo_state ''a'' [] [] (ResourceStatusOther 0),
                     demo_state ''a'' [] [] (ResourceStatusOther 0)]"
  have a: "\<not> statuses_valid (Resources ?del)" by (simp add: demo_spec_defs)
  have b: "statuses_valid (Resources ?two)" by (simp add: demo_spec_defs)
  from VerifyIntegrity_status [of ?del demo_sha256 demo_Live] a
  have "\<exists>e. VerifyIntegrity demo_sha256 demo_Live ?del = Some e" by blast
  moreover from VerifyIntegrity_status [of ?two demo_sha256 demo_Live "''a''"] b
  have "VerifyIntegrity demo_sha256 demo_Live ?two \<noteq> Some (StatusUnspecified ''a'') \<and>
        VerifyIntegrity demo_sha256 demo_Live ?two \<noteq> Some (StatusDeleted ''a'')" by blast
  ultimately show ?thesis using a b by blast
qed

text \<open>
  Claim C6. \<open>NewMagic\<close> gives equal cookies for manifests with equal \<open>Version\<close>; changing
  \<open>Time\<close>, \<open>Magic\<close> and \<open>Plugins\<close> does not change it; and storing the cookie on the manifest
  and computing it again gives the same cookie.
\<close>

theorem NewMagic_deterministic:
  "(Version m1 = Version m2 \<longrightarrow> NewMagic sha256 m1 = NewMagic sha256 m2) \<and>
   NewMagic sha256 (m\<lparr>Time := t, Magic := g, Plugins := ps\<rparr>) = NewMagic sha256 m \<and>
   NewMagic sha256 (m\<lparr>Magic := NewMagic sha256 m\<rparr>) = NewMagic sha256 m"
  by (simp add: NewMagic_def)

theorem NewMagic_deterministic_witness:
  "Version demo_manifest = Version \<lparr>Time = 99, Magic = ''tampered'', Version = ''v1'', Plugins = []\<rparr> \<and>
   NewMagic demo_sha256 demo_manifest =
     NewMagic demo_sha256 \<lparr>Time = 99, Magic = ''tampered'', Version = ''v1'', Plugins = []\<rparr>"
proof -
  have v: "Version demo_manifest = Version \<lparr>Time = 99, Magic = ''tampered'', Version = ''v1'', Plugins = []\<rparr>"
    by (simp add: demo_manifest_def)
  from NewMagic_deterministic [of demo_manifest
      "\<lparr>Time = 99, Magic = ''tampered'', Version = ''v1'', Plugins = []\<rparr>" demo_sha256] v
  show ?thesis by blast
qed

lemma verify_loop_not_magic:
  "verify_loop Live Map.empty Map.empty rs \<noteq> Some MagicMismatch"
proof
  assume "verify_loop Live Map.empty Map.empty rs = Some MagicMismatch"
  from verify_loop_Some [OF this] show False by simp
qed

text \<open>
  Claim C10. For an empty \<open>Version\<close> the cookie is the empty string, so for a snapshot whose
  manifest has an empty \<open>Version\<close> and an empty \<open>Magic\<close> the cookie check passes: the outcome
  is that of the loop over the resources, never the mismatch error.
\<close>

theorem empty_Version_no_tamper_detection:
  "(Version m = [] \<longrightarrow> NewMagic sha256 m = []) \<and>
   (Version (Manifest snap) = [] \<and> Magic (Manifest snap) = [] \<longrightarrow>
      VerifyIntegrity sha256 Live snap = verify_loop Live Map.empty Map.empty (Resources snap) \<and>
      VerifyIntegrity sha256 Live snap \<noteq> Some MagicMismatch)"
  by (simp add: NewMagic_def VerifyIntegrity_def verify_loop_not_magic)

theorem empty_Version_no_tamper_detection_witness:
  "NewMagic demo_sha256 \<lparr>Time = 3, Magic = [], Version = [], Plugins = []\<rparr> = [] \<and>
   VerifyIntegrity demo_sha256 demo_Live
     (NewSnapshot ''dev'' \<lparr>Time = 3, Magic = [], Version = [], Plugins = []\<rparr>
        [demo_state ''a'' [] [] (ResourceStatusOther 0)]) \<noteq> Some MagicMismatch"
proof -
  let ?m = "\<lparr>Time = 3, Magic = [], Version = [], Plugins = []\<rparr> :: Manifest"
  let ?s = "NewSnapshot ''dev'' ?m [demo_state ''a'' [] [] (ResourceStatusOther 0)]"
  have v: "Version ?m = []" by simp
  have h: "Version (Manifest ?s) = [] \<and> Magic (Manifest ?s) = []" by (simp add: NewSnapshot_def)
  from empty_Version_no_tamper_detection [of ?m demo_sha256 ?s demo_Live] v h
  show ?thesis by blast
qed

section \<open>Preview, prompt, execute: proofs\<close>

subsection \<open>The confirmation loop\<close>

text \<open>
  Whenever the loop returns it has issued a prompt, used up at least one reply, and called
  no applier.
\<close>

lemma confirm_loop_log:
  "confirm_loop kind events opts as lg = Some (res, as', lg') \<Longrightarrow>
     \<exists>ext. lg' = lg @ Prompted kind ([yes, no] @ (if \<not> SkipPreview opts then [details] else [])) # ext \<and>
           (\<forall>a\<in>set ext. \<not> real_apply a) \<and> length as' < length as"
proof (induction as arbitrary: lg)
  case Nil
  then show ?case by simp
next
  case (Cons a as)
  let ?P = "Prompted kind ([yes, no] @ (if \<not> SkipPreview opts then [details] else []))"
  show ?case
  proof (cases a)
    case (AskError err)
    with Cons.prems show ?thesis by (auto simp: Let_def)
  next
    case (Response r)
    consider "r = no" | "r \<noteq> no" "r = yes" | "r \<noteq> no" "r \<noteq> yes" "r = details"
      | "r \<noteq> no" "r \<noteq> yes" "r \<noteq> details" by blast
    then show ?thesis
    proof cases
      case 1
      with Cons.prems Response show ?thesis by (auto simp: Let_def)
    next
      case 2
      with Cons.prems Response show ?thesis by (auto simp: Let_def)
    next
      case 3
      with Cons.prems Response
      have "confirm_loop kind events opts as ((lg @ [?P]) @ [Printed (Diff events)]) = Some (res, as', lg')"
        by (simp add: Let_def)
      from Cons.IH [OF this] obtain ext where
        ext: "lg' = ((lg @ [?P]) @ [Printed (Diff events)]) @ ?P # ext"
          "\<forall>a\<in>set ext. \<not> real_apply a" "length as' < length as" by blast
      have "lg' = lg @ ?P # (Printed (Diff events) # ?P # ext)" using ext(1) by simp
      moreover have "\<forall>a\<in>set (Printed (Diff events) # ?P # ext). \<not> real_apply a"
        using ext(2) by simp
      moreover have "length as' < length (a # as)" using ext(3) by simp
      ultimately show ?thesis by blast
    next
      case 4
      with Cons.prems Response
      have "confirm_loop kind events opts as (lg @ [?P]) = Some (res, as', lg')"
        by (simp add: Let_def)
      from Cons.IH [OF this] obtain ext where
        ext: "lg' = (lg @ [?P]) @ ?P # ext"
          "\<forall>a\<in>set ext. \<not> real_apply a" "length as' < length as" by blast
      have "lg' = lg @ ?P # (?P # ext)" using ext(1) by simp
      moreover have "\<forall>a\<in>set (?P # ext). \<not> real_apply a"
        using ext(2) by simp
      moreover have "length as' < length (a # as)" using ext(3) by simp
      ultimately show ?thesis by blast
    qed
  qed
qed

lemma confirmBeforeUpdating_log:
  assumes "confirmBeforeUpdating kind events opts w = Some (res, w')"
  shows "\<exists>ext. log w' = log w @ Prompted kind ([yes, no] @ (if \<not> SkipPreview opts then [details] else [])) # ext \<and>
           (\<forall>a\<in>set ext. \<not> real_apply a) \<and> length (answers w') < length (answers w) \<and>
           plans w' = plans w \<and> env w' = env w"
proof -
  from assms obtain as lg where
    c: "confirm_loop kind events opts (answers w) (log w) = Some (res, as, lg)"
    and w': "w' = w\<lparr>answers := as, log := lg\<rparr>"
    by (auto simp: confirmBeforeUpdating_def split: option.splits)
  from confirm_loop_log [OF c] w' show ?thesis by auto
qed

lemma confirm_loop_yes:
  "confirm_loop kind events opts (Response yes # rest) lg =
     Some (None, rest, lg @ [Prompted kind ([yes, no] @ (if \<not> SkipPreview opts then [details] else []))])"
  by (simp add: Let_def yes_def no_def)

lemma confirm_loop_declined:
  assumes "\<forall>a\<in>set ds. \<exists>r. a = Response r \<and> r \<noteq> yes \<and> r \<noteq> no"
  shows "\<exists>lg'. confirm_loop kind events opts (ds @ Response no # rest) lg = Some (Some Bail, rest, lg')"
  using assms
proof (induction ds arbitrary: lg)
  case Nil
  then show ?case by (simp add: Let_def)
next
  case (Cons d ds)
  then obtain r where r: "d = Response r" "r \<noteq> yes" "r \<noteq> no" by auto
  have rest: "\<forall>a\<in>set ds. \<exists>r. a = Response r \<and> r \<noteq> yes \<and> r \<noteq> no" using Cons.prems by simp
  let ?P = "Prompted kind ([yes, no] @ (if \<not> SkipPreview opts then [details] else []))"
  show ?case
  proof (cases "r = details")
    case True
    with r Cons.IH [OF rest, of "(lg @ [?P]) @ [Printed (Diff events)]"] show ?thesis
      by (simp add: Let_def)
  next
    case False
    with r Cons.IH [OF rest, of "lg @ [?P]"] show ?thesis
      by (simp add: Let_def)
  qed
qed

lemma confirmBeforeUpdating_declined:
  assumes "\<forall>a\<in>set ds. \<exists>r. a = Response r \<and> r \<noteq> yes \<and> r \<noteq> no"
    and "answers w = ds @ Response no # rest"
  shows "\<exists>w' ext. confirmBeforeUpdating kind events opts w = Some (Some Bail, w') \<and>
           answers w' = rest \<and> plans w' = plans w \<and> env w' = env w \<and>
           log w' = log w @ ext \<and> (\<forall>a\<in>set ext. \<not> real_apply a)"
proof -
  from confirm_loop_declined [OF assms(1), of kind events opts rest "log w"] obtain lg' where
    c: "confirm_loop kind events opts (answers w) (log w) = Some (Some Bail, rest, lg')"
    using assms(2) by auto
  then have r: "confirmBeforeUpdating kind events opts w = Some (Some Bail, w\<lparr>answers := rest, log := lg'\<rparr>)"
    by (simp add: confirmBeforeUpdating_def)
  let ?w' = "w\<lparr>answers := rest, log := lg'\<rparr>"
  let ?P = "Prompted kind ([yes, no] @ (if \<not> SkipPreview opts then [details] else []))"
  from confirmBeforeUpdating_log [OF r] obtain ext where
    ext: "log ?w' = log w @ ?P # ext" "\<forall>a\<in>set ext. \<not> real_apply a" by blast
  have "confirmBeforeUpdating kind events opts w = Some (Some Bail, ?w') \<and>
           answers ?w' = rest \<and> plans ?w' = plans w \<and> env ?w' = env w \<and>
           log ?w' = log w @ (?P # ext) \<and> (\<forall>a\<in>set (?P # ext). \<not> real_apply a)"
    using r ext by simp
  then show ?thesis by blast
qed

lemma confirm_loop_accepted:
  assumes "\<forall>a\<in>set ds. \<exists>r. a = Response r \<and> r \<noteq> yes \<and> r \<noteq> no"
  shows "\<exists>lg'. confirm_loop kind events opts (ds @ Response yes # rest) lg = Some (None, rest, lg')"
  using assms
proof (induction ds arbitrary: lg)
  case Nil
  then show ?case by (simp add: confirm_loop_yes del: confirm_loop.simps)
next
  case (Cons d ds)
  then obtain r where r: "d = Response r" "r \<noteq> yes" "r \<noteq> no" by auto
  have rest: "\<forall>a\<in>set ds. \<exists>r. a = Response r \<and> r \<noteq> yes \<and> r \<noteq> no" using Cons.prems by simp
  let ?P = "Prompted kind ([yes, no] @ (if \<not> SkipPreview opts then [details] else []))"
  show ?case
  proof (cases "r = details")
    case True
    with r Cons.IH [OF rest, of "(lg @ [?P]) @ [Printed (Diff events)]"] show ?thesis
      by (simp add: Let_def)
  next
    case False
    with r Cons.IH [OF rest, of "lg @ [?P]"] show ?thesis
      by (simp add: Let_def)
  qed
qed

lemma confirmBeforeUpdating_accepted:
  assumes "\<forall>a\<in>set ds. \<exists>r. a = Response r \<and> r \<noteq> yes \<and> r \<noteq> no"
    and "answers w = ds @ Response yes # rest"
  shows "\<exists>w' ext. confirmBeforeUpdating kind events opts w = Some (None, w') \<and>
           answers w' = rest \<and> plans w' = plans w \<and> env w' = env w \<and>
           log w' = log w @ ext \<and> (\<forall>a\<in>set ext. \<not> real_apply a)"
proof -
  from confirm_loop_accepted [OF assms(1), of kind events opts rest "log w"] obtain lg' where
    c: "confirm_loop kind events opts (answers w) (log w) = Some (None, rest, lg')"
    using assms(2) by auto
  then have r: "confirmBeforeUpdating kind events opts w = Some (None, w\<lparr>answers := rest, log := lg'\<rparr>)"
    by (simp add: confirmBeforeUpdating_def)
  let ?w' = "w\<lparr>answers := rest, log := lg'\<rparr>"
  let ?P = "Prompted kind ([yes, no] @ (if \<not> SkipPreview opts then [details] else []))"
  from confirmBeforeUpdating_log [OF r] obtain ext where
    ext: "log ?w' = log w @ ?P # ext" "\<forall>a\<in>set ext. \<not> real_apply a" by blast
  have "confirmBeforeUpdating kind events opts w = Some (None, ?w') \<and>
           answers ?w' = rest \<and> plans ?w' = plans w \<and> env ?w' = env w \<and>
           log ?w' = log w @ (?P # ext) \<and> (\<forall>a\<in>set (?P # ext). \<not> real_apply a)"
    using r ext by simp
  then show ?thesis by blast
qed

subsection \<open>The preview and the real run\<close>

lemma call_apply_eq:
  assumes "apply kind op opts (plans w) (env w) = (r, evs, ps, e)"
  shows "call_apply apply kind op opts w =
           (r, evs, w\<lparr>plans := ps, env := e, log := log w @ [Applied kind op opts (plans w)]\<rparr>)"
  using assms by (simp add: call_apply_def)

text \<open>
  \<open>PreviewThenPrompt\<close> after a dry run that returned no result, and after one that returned one.
\<close>

lemma PreviewThenPrompt_nil:
  assumes "apply kind op \<lparr>DryRun = True, ShowLink = True\<rparr> (plans w) (env w) =
             ((plan, changes, None), evs, ps, e)"
  shows "PreviewThenPrompt apply kind op w =
     (let w1 = w\<lparr>plans := ps, env := e,
                  log := log w @ [Applied kind op \<lparr>DryRun = True, ShowLink = True\<rparr> (plans w)]\<rparr>;
          events = filter (\<lambda>e. Type e = ResourcePreEvent \<or> Type e = ResourceOutputsEvent \<or>
                                     Type e = SummaryEvent) evs
      in if AutoApprove (Opts op) \<or> kind = PreviewUpdate then Some ((plan, changes, None), w1)
         else
           (let w2 = (if kind \<noteq> UpdateUpdate then w1
                      else if countResources events = 0
                        then w1\<lparr>log := log w1 @ [Printed NoResourcesInfo]\<rparr>
                      else w1)
            in case confirmBeforeUpdating kind events (Opts op) w2 of
                 None \<Rightarrow> None
               | Some (res', w3) \<Rightarrow> Some ((plan, changes, res'), w3)))"
  using assms by (simp add: PreviewThenPrompt_def Let_def call_apply_def)

lemma PreviewThenPrompt_failed:
  assumes "apply kind op \<lparr>DryRun = True, ShowLink = True\<rparr> (plans w) (env w) =
             ((plan, changes, Some r), evs, ps, e)"
  shows "PreviewThenPrompt apply kind op w =
     Some ((plan, changes, Some r), w\<lparr>plans := ps, env := e,
                  log := log w @ [Applied kind op \<lparr>DryRun = True, ShowLink = True\<rparr> (plans w)]\<rparr>)"
  using assms by (simp add: PreviewThenPrompt_def Let_def call_apply_def)

text \<open>
  Whenever \<open>PreviewThenPrompt\<close> returns: the first new action is the dry run, no later one is
  a real run, and the store of plans is the one the dry run left.
\<close>

lemma PreviewThenPrompt_log:
  assumes "PreviewThenPrompt apply kind op w = Some ((plan, changes, res), w')"
  shows "\<exists>r evs ps e ext.
           apply kind op \<lparr>DryRun = True, ShowLink = True\<rparr> (plans w) (env w) =
             ((plan, changes, r), evs, ps, e) \<and>
           plans w' = ps \<and> env w' = e \<and>
           log w' = log w @ Applied kind op \<lparr>DryRun = True, ShowLink = True\<rparr> (plans w) # ext \<and>
           (\<forall>a\<in>set ext. \<not> real_apply a)"
proof -
  obtain pl ch r evs ps e where
    ap: "apply kind op \<lparr>DryRun = True, ShowLink = True\<rparr> (plans w) (env w) = ((pl, ch, r), evs, ps, e)"
    by (metis prod_cases3 surj_pair)
  let ?A = "Applied kind op \<lparr>DryRun = True, ShowLink = True\<rparr> (plans w)"
  let ?w1 = "w\<lparr>plans := ps, env := e, log := log w @ [?A]\<rparr>"
  show ?thesis
  proof (cases r)
    case (Some x)
    with ap assms PreviewThenPrompt_failed [of "apply" kind op w pl ch x evs ps e]
    have "pl = plan" "ch = changes" "w' = ?w1" "r = res"
      by simp_all
    with ap show ?thesis by auto
  next
    case None
    have n: "PreviewThenPrompt apply kind op w =
     (let w1 = ?w1;
          events = filter (\<lambda>e. Type e = ResourcePreEvent \<or> Type e = ResourceOutputsEvent \<or>
                                     Type e = SummaryEvent) evs
      in if AutoApprove (Opts op) \<or> kind = PreviewUpdate then Some ((pl, ch, None), w1)
         else
           (let w2 = (if kind \<noteq> UpdateUpdate then w1
                      else if countResources events = 0
                        then w1\<lparr>log := log w1 @ [Printed NoResourcesInfo]\<rparr>
                      else w1)
            in case confirmBeforeUpdating kind events (Opts op) w2 of
                 None \<Rightarrow> None
               | Some (res', w3) \<Rightarrow> Some ((pl, ch, res'), w3)))"
      using PreviewThenPrompt_nil [of "apply" kind op w pl ch evs ps e] ap None by simp
    show ?thesis
    proof (cases "AutoApprove (Opts op) \<or> kind = PreviewUpdate")
      case True
      with n assms have "pl = plan" "ch = changes" "w' = ?w1"
        by (simp_all add: Let_def)
      with ap show ?thesis by auto
    next
      case False
      let ?events = "filter (\<lambda>e. Type e = ResourcePreEvent \<or> Type e = ResourceOutputsEvent \<or>
                                     Type e = SummaryEvent) evs"
      let ?w2 = "if kind \<noteq> UpdateUpdate then ?w1
                      else if countResources ?events = 0
                        then ?w1\<lparr>log := log ?w1 @ [Printed NoResourcesInfo]\<rparr>
                      else ?w1"
      from n assms False obtain res' where
        c: "confirmBeforeUpdating kind ?events (Opts op) ?w2 = Some (res', w')"
        and eqs: "pl = plan" "ch = changes" "res' = res"
        by (auto simp: Let_def split: option.splits)
      from confirmBeforeUpdating_log [OF c] obtain ext where
        ext: "log w' = log ?w2 @ Prompted kind ([yes, no] @ (if \<not> SkipPreview (Opts op) then [details] else [])) # ext"
          "\<forall>a\<in>set ext. \<not> real_apply a" "plans w' = plans ?w2" "env w' = env ?w2"
        by blast
      have l2: "\<exists>pre. log ?w2 = log w @ ?A # pre \<and> (\<forall>a\<in>set pre. \<not> real_apply a)"
        by (cases "kind \<noteq> UpdateUpdate"; cases "countResources ?events = 0") simp_all
      then obtain pre where pre: "log ?w2 = log w @ ?A # pre" "\<forall>a\<in>set pre. \<not> real_apply a"
        by blast
      let ?ext = "pre @ Prompted kind ([yes, no] @ (if \<not> SkipPreview (Opts op) then [details] else [])) # ext"
      have "log w' = log w @ ?A # ?ext" using ext(1) pre(1) by simp
      moreover have "\<forall>a\<in>set ?ext. \<not> real_apply a" using ext(2) pre(2) by auto
      moreover have "plans w' = ps" "env w' = e" using ext(3,4) by simp_all
      ultimately show ?thesis using ap eqs by blast
    qed
  qed
qed

lemma prompt_world:
  fixes w1 :: "('p, 'w) World"
  assumes "w2 = (if kind \<noteq> UpdateUpdate then w1
                 else if countResources events = 0
                   then w1\<lparr>log := log w1 @ [Printed NoResourcesInfo]\<rparr>
                 else w1)"
  shows "answers w2 = answers w1 \<and> plans w2 = plans w1 \<and> env w2 = env w1 \<and>
         (\<exists>pre. log w2 = log w1 @ pre \<and> (\<forall>a\<in>set pre. \<not> real_apply a))"
  using assms by (cases "kind \<noteq> UpdateUpdate"; cases "countResources events = 0") simp_all

text \<open>
  After a dry run that returned no result, \<open>PreviewThenPrompt\<close> returns nil when approval is
  automatic or the user answers yes.
\<close>

lemma PreviewThenPrompt_confirmed:
  assumes ap: "apply kind op \<lparr>DryRun = True, ShowLink = True\<rparr> (plans w) (env w) =
                 ((pl, ch, None), evs, ps, e)"
    and conf: "AutoApprove (Opts op) \<or>
               (answers w = ds @ Response yes # rest \<and>
                (\<forall>a\<in>set ds. \<exists>r. a = Response r \<and> r \<noteq> yes \<and> r \<noteq> no))"
  shows "\<exists>w1 ext. PreviewThenPrompt apply kind op w = Some ((pl, ch, None), w1) \<and>
           plans w1 = ps \<and> env w1 = e \<and>
           log w1 = log w @ Applied kind op \<lparr>DryRun = True, ShowLink = True\<rparr> (plans w) # ext \<and>
           (\<forall>a\<in>set ext. \<not> real_apply a)"
proof -
  let ?A = "Applied kind op \<lparr>DryRun = True, ShowLink = True\<rparr> (plans w)"
  let ?w1 = "w\<lparr>plans := ps, env := e, log := log w @ [?A]\<rparr>"
  let ?events = "filter (\<lambda>e. Type e = ResourcePreEvent \<or> Type e = ResourceOutputsEvent \<or>
                                     Type e = SummaryEvent) evs"
  note n = PreviewThenPrompt_nil [of "apply" kind op w pl ch evs ps e, OF ap]
  show ?thesis
  proof (cases "AutoApprove (Opts op) \<or> kind = PreviewUpdate")
    case True
    with n have "PreviewThenPrompt apply kind op w = Some ((pl, ch, None), ?w1)"
      by (simp add: Let_def)
    moreover have "plans ?w1 = ps" "env ?w1 = e" "log ?w1 = log w @ ?A # []"
      "\<forall>a\<in>set []. \<not> real_apply a" by simp_all
    ultimately show ?thesis by blast
  next
    case False
    with conf have ans: "answers w = ds @ Response yes # rest"
      and ds: "\<forall>a\<in>set ds. \<exists>r. a = Response r \<and> r \<noteq> yes \<and> r \<noteq> no" by auto
    define w2 where "w2 = (if kind \<noteq> UpdateUpdate then ?w1
                 else if countResources ?events = 0
                   then ?w1\<lparr>log := log ?w1 @ [Printed NoResourcesInfo]\<rparr>
                 else ?w1)"
    have ptp: "PreviewThenPrompt apply kind op w =
       (case confirmBeforeUpdating kind ?events (Opts op) w2 of
          None \<Rightarrow> None
        | Some (res', w3) \<Rightarrow> Some ((pl, ch, res'), w3))"
      using n False by (simp add: Let_def w2_def)
    from prompt_world [OF w2_def] obtain pre where
      p2: "answers w2 = answers w" "plans w2 = ps" "env w2 = e"
        "log w2 = log w @ ?A # pre" "\<forall>a\<in>set pre. \<not> real_apply a"
      by auto
    from confirmBeforeUpdating_accepted [OF ds, of w2 rest kind ?events "Opts op"] p2(1) ans
    obtain w3 ext where
      c: "confirmBeforeUpdating kind ?events (Opts op) w2 = Some (None, w3)"
        "plans w3 = plans w2" "env w3 = env w2"
        "log w3 = log w2 @ ext" "\<forall>a\<in>set ext. \<not> real_apply a"
      by auto
    from ptp c(1) have "PreviewThenPrompt apply kind op w = Some ((pl, ch, None), w3)" by simp
    moreover have "log w3 = log w @ ?A # (pre @ ext)" using c(4) p2(4) by simp
    moreover have "\<forall>a\<in>set (pre @ ext). \<not> real_apply a" using c(5) p2(5) by auto
    moreover have "plans w3 = ps" "env w3 = e" using c(2,3) p2(2,3) by simp_all
    ultimately show ?thesis by blast
  qed
qed

lemma execute_eq:
  assumes "apply kind (set_GeneratePlan op False) \<lparr>DryRun = False, ShowLink = True\<rparr> (plans w) (env w) =
             ((plan, changes, res), evs, ps, e)"
  shows "execute apply kind op w =
           Some ((changes, res),
                 w\<lparr>plans := ps, env := e,
                   log := log w @ [Applied kind (set_GeneratePlan op False)
                                     \<lparr>DryRun = False, ShowLink = True\<rparr> (plans w)]\<rparr>)"
  using assms by (simp add: execute_def Let_def call_apply_def)

lemma execute_log:
  "\<exists>out w'. execute apply kind op w = Some (out, w') \<and>
     log w' = log w @ [Applied kind (set_GeneratePlan op False) \<lparr>DryRun = False, ShowLink = True\<rparr> (plans w)]"
proof -
  obtain pl ch r evs ps e where
    ap: "apply kind (set_GeneratePlan op False) \<lparr>DryRun = False, ShowLink = True\<rparr> (plans w) (env w)
           = ((pl, ch, r), evs, ps, e)"
    by (metis prod_cases3 surj_pair)
  show ?thesis using execute_eq [of "apply" kind op w pl ch r evs ps e] ap by simp
qed

lemma clone_original_Some:
  assumes "Plan (Engine (Opts op)) = Some p"
  shows "clone_original op w = (Some (length (plans w)), w\<lparr>plans := plans w @ [plans w ! p]\<rparr>)"
  using assms by (simp add: clone_original_def Plan_Clone_def)

lemma clone_original_world:
  "env (snd (clone_original op w)) = env w \<and> log (snd (clone_original op w)) = log w \<and>
   answers (snd (clone_original op w)) = answers w"
  by (simp add: clone_original_def Plan_Clone_def split: option.splits)

lemma PreviewThenPromptThenExecute_unfold:
  assumes "\<not> SkipPreview (Opts op)"
  shows "PreviewThenPromptThenExecute apply kind op w =
     (case PreviewThenPrompt apply kind op (snd (clone_original op w)) of
        None \<Rightarrow> None
      | Some ((plan, changes, res), w1) \<Rightarrow>
          if res \<noteq> None \<or> kind = PreviewUpdate then Some ((changes, res), w1)
          else execute apply kind
                 (if fst (clone_original op w) \<noteq> None then set_Plan op (fst (clone_original op w))
                  else if Experimental (Engine (Opts op)) then set_Plan op plan
                  else set_Plan op None) w1)"
  using assms
  by (cases "clone_original op w")
     (auto simp: PreviewThenPromptThenExecute_def Let_def split: option.splits)

lemma frame_keeps:
  assumes "plan_frame apply"
    and "apply kind op opts ps e = (r, evs, ps', e')"
    and "a < length ps" and "Plan (Engine (Opts op)) \<noteq> Some a"
  shows "a < length ps' \<and> ps' ! a = ps ! a"
proof -
  from assms(1,2) have "length ps \<le> length ps' \<and>
          (\<forall>a<length ps. Some a \<noteq> Plan (Engine (Opts op)) \<longrightarrow> ps' ! a = ps ! a)"
    unfolding plan_frame_def by blast
  with assms(3,4) show ?thesis by (metis less_le_trans)
qed

subsection \<open>Evaluating the examples\<close>

lemma demo_apply_frame: "plan_frame demo_apply"
  by (auto simp: plan_frame_def demo_apply_def split: option.splits)

lemmas apply_defs = PreviewThenPromptThenExecute_def clone_original_def Plan_Clone_def
  PreviewThenPrompt_def call_apply_def confirmBeforeUpdating_def execute_def set_Plan_def
  set_GeneratePlan_def yes_def no_def details_def demo_apply_def demo_op_def demo_world_def Let_def

subsection \<open>The claims about the protocol\<close>

text \<open>
  Every call of the applier with \<open>DryRun\<close> false that a returned run has logged was handed the
  clone, with the contents the plan had on entry.
\<close>

lemma real_calls_use_clone:
  assumes frame: "plan_frame apply"
    and skip: "\<not> SkipPreview (Opts op)"
    and plan: "Plan (Engine (Opts op)) = Some p"
    and valid: "p < length (plans w)"
    and ret: "PreviewThenPromptThenExecute apply kind op w = Some (out, w')"
  shows "\<exists>rest. log w' = log w @ Applied kind op \<lparr>DryRun = True, ShowLink = True\<rparr>
                                  (plans w @ [plans w ! p]) # rest \<and>
           (\<forall>k op' opts' ps'. Applied k op' opts' ps' \<in> set rest \<and> \<not> DryRun opts' \<longrightarrow>
              Plan (Engine (Opts op')) = Some (length (plans w)) \<and>
              length (plans w) < length ps' \<and> ps' ! length (plans w) = plans w ! p)"
proof -
  let ?q = "length (plans w)"
  let ?w0 = "w\<lparr>plans := plans w @ [plans w ! p]\<rparr>"
  let ?A = "Applied kind op \<lparr>DryRun = True, ShowLink = True\<rparr> (plans w @ [plans w ! p])"
  note co = clone_original_Some [OF plan, of w]
  note u = PreviewThenPromptThenExecute_unfold [OF skip, of "apply" kind w, unfolded co fst_conv snd_conv]
  from ret u obtain pl ch res w1 where
    ptp: "PreviewThenPrompt apply kind op ?w0 = Some ((pl, ch, res), w1)"
    by (cases "PreviewThenPrompt apply kind op ?w0") auto
  from PreviewThenPrompt_log [OF ptp] obtain r evs ps e ext where
    ap: "apply kind op \<lparr>DryRun = True, ShowLink = True\<rparr> (plans ?w0) (env ?w0) = ((pl, ch, r), evs, ps, e)"
    and w1: "plans w1 = ps" "log w1 = log ?w0 @ Applied kind op \<lparr>DryRun = True, ShowLink = True\<rparr> (plans ?w0) # ext"
    and ext: "\<forall>a\<in>set ext. \<not> real_apply a"
    by blast
  have lw1: "log w1 = log w @ ?A # ext" using w1(2) by simp
  have dry_ext: "DryRun opts'" if "Applied k op' opts' ps' \<in> set ext" for k op' opts' ps'
    using ext that by force
  show ?thesis
  proof (cases "res \<noteq> None \<or> kind = PreviewUpdate")
    case True
    with ret u ptp have "w' = w1" by auto
    with lw1 dry_ext show ?thesis by blast
  next
    case False
    let ?op1 = "set_Plan op (Some ?q)"
    let ?R = "Applied kind (set_GeneratePlan ?op1 False) \<lparr>DryRun = False, ShowLink = True\<rparr> (plans w1)"
    from False ret u ptp have ex: "execute apply kind ?op1 w1 = Some (out, w')" by auto
    from execute_log [of "apply" kind ?op1 w1] ex
    have lw': "log w' = log w1 @ [?R]" by auto
    have q0: "?q < length (plans ?w0)" by simp
    have qp: "Plan (Engine (Opts op)) \<noteq> Some ?q" using plan valid by simp
    from frame_keeps [OF frame ap q0 qp]
    have keep: "?q < length ps" "ps ! ?q = plans w ! p" by simp_all
    have "log w' = log w @ ?A # (ext @ [?R])" using lw' lw1 by simp
    moreover have "Plan (Engine (Opts op')) = Some ?q \<and> ?q < length ps' \<and> ps' ! ?q = plans w ! p"
      if "Applied k op' opts' ps' \<in> set (ext @ [?R])" "\<not> DryRun opts'" for k op' opts' ps'
    proof -
      from that dry_ext have "Applied k op' opts' ps' = ?R" by auto
      then have "op' = set_GeneratePlan ?op1 False" "ps' = plans w1" by simp_all
      then show ?thesis using keep w1(1)
        by (simp add: set_GeneratePlan_def set_Plan_def)
    qed
    ultimately show ?thesis by blast
  qed
qed

text \<open>
  Claim C7. With a plan in the engine options and the preview not skipped, the plan is
  cloned before the preview: the dry run is the first action, it is handed the operation
  with the plan itself, and the store it is called in already holds the clone, at the next
  free address, with the contents of the plan. When the dry run returns no result, the kind
  is not preview-only, and approval is automatic or the user answers yes (after any replies
  that are neither yes nor no), the function returns what the real run returns, and its last
  action is the call of the applier with \<open>DryRun\<close> false: that call is handed the clone, in
  the store the dry run left, where the contents of the clone are still those the plan had
  on entry, whatever the dry run did to the plan it was handed. No other call with \<open>DryRun\<close>
  false is made, and any such call in the log of a returned run is handed the clone. The
  applier is assumed to change no plan object other than the one it is handed. In the
  example the dry run changes the plan from 10 to 11 and the real run is handed a plan
  that reads 10.
\<close>

theorem PreviewThenPromptThenExecute_original_plan:
  assumes frame: "plan_frame apply"
    and skip: "\<not> SkipPreview (Opts op)"
    and plan: "Plan (Engine (Opts op)) = Some p"
    and valid: "p < length (plans w)"
  shows "(\<forall>out w'. PreviewThenPromptThenExecute apply kind op w = Some (out, w') \<longrightarrow>
            (\<exists>rest. log w' = log w @ Applied kind op \<lparr>DryRun = True, ShowLink = True\<rparr>
                                      (plans w @ [plans w ! p]) # rest \<and>
               (\<forall>k op' opts' ps'. Applied k op' opts' ps' \<in> set rest \<and> \<not> DryRun opts' \<longrightarrow>
                  Plan (Engine (Opts op')) = Some (length (plans w)) \<and>
                  length (plans w) < length ps' \<and> ps' ! length (plans w) = plans w ! p))) \<and>
         (apply kind op \<lparr>DryRun = True, ShowLink = True\<rparr> (plans w @ [plans w ! p]) (env w) =
            ((pl, ch, None), evs, ps, e) \<and>
          kind \<noteq> PreviewUpdate \<and>
          (AutoApprove (Opts op) \<or>
           (answers w = ds @ Response yes # rest \<and>
            (\<forall>a\<in>set ds. \<exists>r. a = Response r \<and> r \<noteq> yes \<and> r \<noteq> no))) \<longrightarrow>
            (\<exists>out w' ext pl2 evs2.
               PreviewThenPromptThenExecute apply kind op w = Some (out, w') \<and>
               log w' = log w @ Applied kind op \<lparr>DryRun = True, ShowLink = True\<rparr>
                                  (plans w @ [plans w ! p]) # ext @
                          [Applied kind (set_GeneratePlan (set_Plan op (Some (length (plans w)))) False)
                             \<lparr>DryRun = False, ShowLink = True\<rparr> ps] \<and>
               (\<forall>a\<in>set ext. \<not> real_apply a) \<and>
               length (plans w) < length ps \<and> ps ! length (plans w) = plans w ! p \<and>
               apply kind (set_GeneratePlan (set_Plan op (Some (length (plans w)))) False)
                     \<lparr>DryRun = False, ShowLink = True\<rparr> ps e =
                 ((pl2, fst out, snd out), evs2, plans w', env w')))"
  (is "?safety \<and> (?H \<longrightarrow> ?live)")
proof (intro conjI)
  show "?safety"
    using real_calls_use_clone [OF frame skip plan valid] by blast
next
  show "?H \<longrightarrow> ?live"
  proof (rule impI)
    assume h: "?H"
    let ?q = "length (plans w)"
    let ?w0 = "w\<lparr>plans := plans w @ [plans w ! p]\<rparr>"
    let ?dry = "\<lparr>DryRun = True, ShowLink = True\<rparr>"
    let ?real = "\<lparr>DryRun = False, ShowLink = True\<rparr>"
    let ?A = "Applied kind op ?dry (plans w @ [plans w ! p])"
    let ?op1 = "set_Plan op (Some ?q)"
    let ?op2 = "set_GeneratePlan ?op1 False"
    note co = clone_original_Some [OF plan, of w]
    note u = PreviewThenPromptThenExecute_unfold [OF skip, of "apply" kind w, unfolded co fst_conv snd_conv]
    have ap: "apply kind op ?dry (plans ?w0) (env ?w0) = ((pl, ch, None), evs, ps, e)"
      using h by simp
    have conf: "AutoApprove (Opts op) \<or>
               (answers ?w0 = ds @ Response yes # rest \<and>
                (\<forall>a\<in>set ds. \<exists>r. a = Response r \<and> r \<noteq> yes \<and> r \<noteq> no))"
      using h by simp
    from PreviewThenPrompt_confirmed [of "apply" kind op ?w0 pl ch evs ps e ds rest, OF ap conf]
    obtain w1 ext where
      ptp: "PreviewThenPrompt apply kind op ?w0 = Some ((pl, ch, None), w1)"
      and w1: "plans w1 = ps" "env w1 = e" "log w1 = log w @ ?A # ext"
      and ext: "\<forall>a\<in>set ext. \<not> real_apply a"
      by auto
    obtain pl2 ch2 r2 evs2 ps2 e2 where
      ap2: "apply kind ?op2 ?real (plans w1) (env w1) = ((pl2, ch2, r2), evs2, ps2, e2)"
      by (metis prod_cases3 surj_pair)
    let ?w' = "w1\<lparr>plans := ps2, env := e2, log := log w1 @ [Applied kind ?op2 ?real (plans w1)]\<rparr>"
    have ex: "execute apply kind ?op1 w1 = Some ((ch2, r2), ?w')"
      using execute_eq [of "apply" kind ?op1 w1 pl2 ch2 r2 evs2 ps2 e2] ap2 by simp
    have kind: "kind \<noteq> PreviewUpdate" using h by simp
    have ret: "PreviewThenPromptThenExecute apply kind op w = Some ((ch2, r2), ?w')"
      using u ptp ex kind by simp
    have q0: "?q < length (plans ?w0)" by simp
    have qp: "Plan (Engine (Opts op)) \<noteq> Some ?q" using plan valid by simp
    from frame_keeps [OF frame ap q0 qp]
    have keep: "?q < length ps" "ps ! ?q = plans w ! p" by simp_all
    have lg: "log ?w' = log w @ ?A # ext @ [Applied kind ?op2 ?real ps]"
      using w1 by simp
    have res: "apply kind ?op2 ?real ps e = ((pl2, fst (ch2, r2), snd (ch2, r2)), evs2, plans ?w', env ?w')"
      using ap2 w1 by simp
    from ret lg ext keep res show "?live" by blast
  qed
qed

theorem PreviewThenPromptThenExecute_original_plan_witness:
  "plan_frame demo_apply \<and>
   \<not> SkipPreview (Opts (demo_op (Some 0) False False)) \<and>
   Plan (Engine (Opts (demo_op (Some 0) False False))) = Some 0 \<and>
   0 < length (plans (demo_world [Response ''details'', Response ''yes''])) \<and>
   demo_apply UpdateUpdate (demo_op (Some 0) False False) \<lparr>DryRun = True, ShowLink = True\<rparr> [10, 10] 0 =
     ((Some 0, [(''create'', 1)], None),
      [\<lparr>Type = ResourcePreEvent, Payload = Some ''aws:s3/bucket:Bucket''\<rparr>], [11, 10], 1) \<and>
   ''details'' \<noteq> yes \<and> ''details'' \<noteq> no \<and>
   (\<exists>out w' ext.
      PreviewThenPromptThenExecute demo_apply UpdateUpdate (demo_op (Some 0) False False)
        (demo_world [Response ''details'', Response ''yes'']) = Some (out, w') \<and>
      log w' = Applied UpdateUpdate (demo_op (Some 0) False False)
                 \<lparr>DryRun = True, ShowLink = True\<rparr> [10, 10] # ext @
               [Applied UpdateUpdate
                  (set_GeneratePlan (set_Plan (demo_op (Some 0) False False) (Some 1)) False)
                  \<lparr>DryRun = False, ShowLink = True\<rparr> [11, 10]] \<and>
      list_all (\<lambda>a. \<not> real_apply a) ext \<and>
      [11, 10 :: nat] ! 1 = [10] ! 0 \<and>
      plans w' = [11, 11] \<and> fst out = [(''create'', 1)] \<and> snd out = None)"
proof -
  let ?op = "demo_op (Some 0) False False"
  let ?w = "demo_world [Response ''details'', Response ''yes'']"
  let ?dry = "\<lparr>DryRun = True, ShowLink = True\<rparr>"
  let ?real = "\<lparr>DryRun = False, ShowLink = True\<rparr>"
  let ?ev = "[\<lparr>Type = ResourcePreEvent, Payload = Some ''aws:s3/bucket:Bucket''\<rparr>]"
  let ?op2 = "set_GeneratePlan (set_Plan ?op (Some 1)) False"
  have h1: "\<not> SkipPreview (Opts ?op)" by (simp add: demo_op_def)
  have h2: "Plan (Engine (Opts ?op)) = Some 0" by (simp add: demo_op_def)
  have h3: "0 < length (plans ?w)" by (simp add: demo_world_def)
  have pw: "plans ?w = [10]" "log ?w = []" "env ?w = 0" by (simp_all add: demo_world_def)
  have dryrun: "demo_apply UpdateUpdate ?op ?dry [10, 10] 0 = ((Some 0, [(''create'', 1)], None), ?ev, [11, 10], 1)"
    by (simp add: demo_apply_def demo_op_def)
  have neq: "''details'' \<noteq> yes" "''details'' \<noteq> no" by (simp_all add: yes_def no_def)
  have ds: "\<forall>a\<in>set [Response ''details'']. \<exists>r. a = Response r \<and> r \<noteq> yes \<and> r \<noteq> no"
    using neq by simp
  have ans: "answers ?w = [Response ''details''] @ Response yes # []"
    by (simp add: demo_world_def yes_def)
  have H: "demo_apply UpdateUpdate ?op ?dry (plans ?w @ [plans ?w ! 0]) (env ?w) =
            ((Some 0, [(''create'', 1)], None), ?ev, [11, 10], 1) \<and>
          UpdateUpdate \<noteq> PreviewUpdate \<and>
          (AutoApprove (Opts ?op) \<or>
           (answers ?w = [Response ''details''] @ Response yes # [] \<and>
            (\<forall>a\<in>set [Response ''details'']. \<exists>r. a = Response r \<and> r \<noteq> yes \<and> r \<noteq> no)))"
    using dryrun ds ans by (simp add: pw)
  note t = PreviewThenPromptThenExecute_original_plan [OF demo_apply_frame h1 h2 h3,
      of UpdateUpdate "Some 0" "[(''create'', 1)]" ?ev "[11, 10]" 1 "[Response ''details'']" "[]",
      THEN conjunct2, rule_format, OF H]
  then obtain out w' ext pl2 evs2 where
    r: "PreviewThenPromptThenExecute demo_apply UpdateUpdate ?op ?w = Some (out, w')"
      "log w' = log ?w @ Applied UpdateUpdate ?op ?dry (plans ?w @ [plans ?w ! 0]) # ext @
                  [Applied UpdateUpdate (set_GeneratePlan (set_Plan ?op (Some (length (plans ?w)))) False)
                     ?real [11, 10]]"
      "\<forall>a\<in>set ext. \<not> real_apply a"
      "[11, 10] ! length (plans ?w) = plans ?w ! 0"
      "demo_apply UpdateUpdate (set_GeneratePlan (set_Plan ?op (Some (length (plans ?w)))) False)
           ?real [11, 10] 1 = ((pl2, fst out, snd out), evs2, plans w', env w')"
    by blast
  have real: "demo_apply UpdateUpdate ?op2 ?real [11, 10] 1 =
                ((Some 1, [(''create'', 1)], None), ?ev, [11, 11], 2)"
    by (simp add: demo_apply_def demo_op_def set_Plan_def set_GeneratePlan_def)
  from r(5) real have fin: "plans w' = [11, 11]" "fst out = [(''create'', 1)]" "snd out = None"
    by (simp_all add: pw)
  from r(2) have lg: "log w' = Applied UpdateUpdate ?op ?dry [10, 10] # ext @
               [Applied UpdateUpdate ?op2 ?real [11, 10]]"
    by (simp add: pw)
  from r(3) have la: "list_all (\<lambda>a. \<not> real_apply a) ext" by (simp add: list_all_iff)
  from r(4) have ix: "[11, 10 :: nat] ! 1 = [10] ! 0" by (simp add: pw)
  from demo_apply_frame h1 h2 h3 dryrun neq r(1) lg la ix fin show ?thesis by blast
qed

text \<open>
  Claim C8, amended. After a dry run that returned no result, \<open>PreviewThenPrompt\<close> returns a
  nil result without a prompt and without using a reply when auto-approval is set or the
  kind is preview-only. Otherwise it prompts, offering yes and no, and details when the
  preview is not skipped: it waits when no reply comes, returns nil on yes, and whenever it
  returns a prompt is in the log and a reply has been used. When the kind is preview-only
  and the preview is not skipped, \<open>PreviewThenPromptThenExecute\<close> returns after the dry run,
  its only call of the applier.
\<close>

theorem PreviewThenPrompt_confirmation:
  "(apply kind op \<lparr>DryRun = True, ShowLink = True\<rparr> (plans w) (env w) = ((plan, changes, None), evs, ps, e) \<and>
    (AutoApprove (Opts op) \<or> kind = PreviewUpdate) \<longrightarrow>
      PreviewThenPrompt apply kind op w =
        Some ((plan, changes, None),
              w\<lparr>plans := ps, env := e,
                log := log w @ [Applied kind op \<lparr>DryRun = True, ShowLink = True\<rparr> (plans w)]\<rparr>)) \<and>
   (apply kind op \<lparr>DryRun = True, ShowLink = True\<rparr> (plans w) (env w) = ((plan, changes, None), evs, ps, e) \<and>
    \<not> AutoApprove (Opts op) \<and> kind \<noteq> PreviewUpdate \<longrightarrow>
      (answers w = [] \<longrightarrow> PreviewThenPrompt apply kind op w = None) \<and>
      (\<forall>rest. answers w = Response yes # rest \<longrightarrow>
         (\<exists>w'. PreviewThenPrompt apply kind op w = Some ((plan, changes, None), w') \<and>
               answers w' = rest)) \<and>
      (\<forall>out w'. PreviewThenPrompt apply kind op w = Some (out, w') \<longrightarrow>
         Prompted kind ([yes, no] @ (if \<not> SkipPreview (Opts op) then [details] else []))
           \<in> set (log w') \<and>
         length (answers w') < length (answers w))) \<and>
   (\<not> SkipPreview (Opts op) \<longrightarrow>
      (\<exists>out w'. PreviewThenPromptThenExecute apply PreviewUpdate op w = Some (out, w') \<and>
         log w' = log w @ [Applied PreviewUpdate op \<lparr>DryRun = True, ShowLink = True\<rparr>
                             (plans (snd (clone_original op w)))]))"
  (is "(?H1 \<longrightarrow> ?S1) \<and> (?H2 \<longrightarrow> ?S2) \<and> (?H3 \<longrightarrow> ?S3)")
proof (intro conjI)
  show "?H1 \<longrightarrow> ?S1"
    using PreviewThenPrompt_nil [of "apply" kind op w plan changes evs ps e] by (simp add: Let_def)
next
  show "?H2 \<longrightarrow> ?S2"
  proof (rule impI)
  assume h: "?H2"
  let ?w1 = "w\<lparr>plans := ps, env := e,
                log := log w @ [Applied kind op \<lparr>DryRun = True, ShowLink = True\<rparr> (plans w)]\<rparr>"
  let ?events = "filter (\<lambda>e. Type e = ResourcePreEvent \<or> Type e = ResourceOutputsEvent \<or>
                                     Type e = SummaryEvent) evs"
  define w2 where "w2 = (if kind \<noteq> UpdateUpdate then ?w1
                 else if countResources ?events = 0
                   then ?w1\<lparr>log := log ?w1 @ [Printed NoResourcesInfo]\<rparr>
                 else ?w1)"
  have ptp: "PreviewThenPrompt apply kind op w =
       (case confirmBeforeUpdating kind ?events (Opts op) w2 of
          None \<Rightarrow> None
        | Some (res', w3) \<Rightarrow> Some ((plan, changes, res'), w3))"
    using PreviewThenPrompt_nil [of "apply" kind op w plan changes evs ps e] h
    by (simp add: Let_def w2_def)
  from prompt_world [OF w2_def] have a2: "answers w2 = answers w" by simp
  show "?S2"
  proof (intro conjI allI impI)
    assume "answers w = []"
    then show "PreviewThenPrompt apply kind op w = None"
      using ptp a2 by (simp add: confirmBeforeUpdating_def)
  next
    fix rest assume "answers w = Response yes # rest"
    then show "\<exists>w'. PreviewThenPrompt apply kind op w = Some ((plan, changes, None), w') \<and>
               answers w' = rest"
      using ptp a2 by (simp add: confirmBeforeUpdating_def confirm_loop_yes del: confirm_loop.simps)
  next
    fix out w' assume r: "PreviewThenPrompt apply kind op w = Some (out, w')"
    with ptp obtain res' where c: "confirmBeforeUpdating kind ?events (Opts op) w2 = Some (res', w')"
      by (auto split: option.splits)
    from confirmBeforeUpdating_log [OF c] a2
    show "Prompted kind ([yes, no] @ (if \<not> SkipPreview (Opts op) then [details] else []))
           \<in> set (log w')" by auto
    from confirmBeforeUpdating_log [OF c] a2
    show "length (answers w') < length (answers w)" by auto
  qed
  qed
next
  show "?H3 \<longrightarrow> ?S3"
  proof (rule impI)
  assume skip: "?H3"
  let ?w0 = "snd (clone_original op w)"
  note u = PreviewThenPromptThenExecute_unfold [OF skip, of "apply" PreviewUpdate w]
  note cw = clone_original_world [of op w]
  obtain pl ch r evs' ps' e' where
    ap: "apply PreviewUpdate op \<lparr>DryRun = True, ShowLink = True\<rparr> (plans ?w0) (env ?w0) = ((pl, ch, r), evs', ps', e')"
    by (metis prod_cases3 surj_pair)
  let ?w1 = "?w0\<lparr>plans := ps', env := e',
                  log := log ?w0 @ [Applied PreviewUpdate op \<lparr>DryRun = True, ShowLink = True\<rparr> (plans ?w0)]\<rparr>"
  have "PreviewThenPrompt apply PreviewUpdate op ?w0 = Some ((pl, ch, r), ?w1)"
  proof (cases r)
    case None
    with ap PreviewThenPrompt_nil [of "apply" PreviewUpdate op ?w0 pl ch evs' ps' e']
    show ?thesis by (simp add: Let_def)
  next
    case (Some x)
    with ap PreviewThenPrompt_failed [of "apply" PreviewUpdate op ?w0 pl ch x evs' ps' e']
    show ?thesis by simp
  qed
  with u have "PreviewThenPromptThenExecute apply PreviewUpdate op w = Some ((ch, r), ?w1)" by simp
  moreover have "log ?w1 = log w @ [Applied PreviewUpdate op \<lparr>DryRun = True, ShowLink = True\<rparr> (plans ?w0)]"
    using cw by simp
  ultimately show "?S3" by blast
  qed
qed

theorem PreviewThenPrompt_confirmation_witness:
  "PreviewThenPrompt demo_apply UpdateUpdate (demo_op None True False) (demo_world [Response ''no'']) =
     Some ((None, [(''create'', 1)], None),
           \<lparr>plans = [10], env = 1, answers = [Response ''no''],
            log = [Applied UpdateUpdate (demo_op None True False) \<lparr>DryRun = True, ShowLink = True\<rparr> [10]]\<rparr>) \<and>
   PreviewThenPrompt demo_apply UpdateUpdate (demo_op None False False) (demo_world []) = None \<and>
   (\<exists>w'. PreviewThenPrompt demo_apply UpdateUpdate (demo_op None False False)
            (demo_world [Response ''yes'']) = Some ((None, [(''create'', 1)], None), w') \<and>
         answers w' = [] \<and>
         Prompted UpdateUpdate [''yes'', ''no'', ''details''] \<in> set (log w')) \<and>
   (\<exists>out w'. PreviewThenPromptThenExecute demo_apply PreviewUpdate (demo_op None False False)
                (demo_world [Response ''yes'']) = Some (out, w') \<and>
      log w' = [Applied PreviewUpdate (demo_op None False False) \<lparr>DryRun = True, ShowLink = True\<rparr> [10]])"
proof -
  let ?dry = "\<lparr>DryRun = True, ShowLink = True\<rparr>"
  let ?ev = "[\<lparr>Type = ResourcePreEvent, Payload = Some ''aws:s3/bucket:Bucket''\<rparr>]"
  have ap: "demo_apply UpdateUpdate (demo_op None a False) ?dry (plans (demo_world as)) (env (demo_world as))
              = ((None, [(''create'', 1)], None), ?ev, [10], 1)" for a as
    by (simp add: demo_apply_def demo_op_def demo_world_def)
  have auto: "AutoApprove (Opts (demo_op None True False))" by (simp add: demo_op_def)
  have manual: "\<not> AutoApprove (Opts (demo_op None False False))" "\<not> SkipPreview (Opts (demo_op None False False))"
    by (simp_all add: demo_op_def)
  have kind: "UpdateUpdate \<noteq> PreviewUpdate" by simp
  note t1 = PreviewThenPrompt_confirmation [of demo_apply UpdateUpdate "demo_op None True False"
      "demo_world [Response ''no'']" None "[(''create'', 1)]" ?ev "[10]" 1, THEN conjunct1, rule_format]
  have p1: "PreviewThenPrompt demo_apply UpdateUpdate (demo_op None True False) (demo_world [Response ''no'']) =
     Some ((None, [(''create'', 1)], None),
           \<lparr>plans = [10], env = 1, answers = [Response ''no''],
            log = [Applied UpdateUpdate (demo_op None True False) ?dry [10]]\<rparr>)"
    using t1 ap [of True "[Response ''no'']"] auto by (simp add: demo_world_def)
  note t2 = PreviewThenPrompt_confirmation [of demo_apply UpdateUpdate "demo_op None False False"
      "demo_world []" None "[(''create'', 1)]" ?ev "[10]" 1, THEN conjunct2, THEN conjunct1, rule_format]
  have p2: "PreviewThenPrompt demo_apply UpdateUpdate (demo_op None False False) (demo_world []) = None"
    using t2 ap [of False "[]"] manual(1) kind by (simp add: demo_world_def)
  note t3 = PreviewThenPrompt_confirmation [of demo_apply UpdateUpdate "demo_op None False False"
      "demo_world [Response ''yes'']" None "[(''create'', 1)]" ?ev "[10]" 1, THEN conjunct2, THEN conjunct1, rule_format]
  have h3: "demo_apply UpdateUpdate (demo_op None False False) ?dry (plans (demo_world [Response ''yes'']))
              (env (demo_world [Response ''yes''])) = ((None, [(''create'', 1)], None), ?ev, [10], 1) \<and>
            \<not> AutoApprove (Opts (demo_op None False False)) \<and> UpdateUpdate \<noteq> PreviewUpdate"
    using ap [of False "[Response ''yes'']"] manual(1) by simp
  from t3 [OF h3] have yes_part: "\<forall>rest. answers (demo_world [Response ''yes'']) = Response yes # rest \<longrightarrow>
         (\<exists>w'. PreviewThenPrompt demo_apply UpdateUpdate (demo_op None False False)
                  (demo_world [Response ''yes'']) = Some ((None, [(''create'', 1)], None), w') \<and>
               answers w' = rest)"
    and log_part: "\<forall>out w'. PreviewThenPrompt demo_apply UpdateUpdate (demo_op None False False)
                  (demo_world [Response ''yes'']) = Some (out, w') \<longrightarrow>
         Prompted UpdateUpdate ([yes, no] @ (if \<not> SkipPreview (Opts (demo_op None False False)) then [details] else []))
           \<in> set (log w') \<and>
         length (answers w') < length (answers (demo_world [Response ''yes'']))"
    by blast+
  have "answers (demo_world [Response ''yes'']) = Response yes # []"
    by (simp add: demo_world_def yes_def)
  with yes_part obtain w' where
    w': "PreviewThenPrompt demo_apply UpdateUpdate (demo_op None False False)
                  (demo_world [Response ''yes'']) = Some ((None, [(''create'', 1)], None), w')"
        "answers w' = []" by blast
  from log_part w'(1) manual(2)
  have "Prompted UpdateUpdate [''yes'', ''no'', ''details''] \<in> set (log w')"
    by (simp add: yes_def no_def details_def)
  with w' have p3: "\<exists>w'. PreviewThenPrompt demo_apply UpdateUpdate (demo_op None False False)
            (demo_world [Response ''yes'']) = Some ((None, [(''create'', 1)], None), w') \<and>
         answers w' = [] \<and>
         Prompted UpdateUpdate [''yes'', ''no'', ''details''] \<in> set (log w')" by blast
  note t4 = PreviewThenPrompt_confirmation [of demo_apply UpdateUpdate "demo_op None False False"
      "demo_world [Response ''yes'']" None "[(''create'', 1)]" ?ev "[10]" 1,
      THEN conjunct2, THEN conjunct2, rule_format]
  have cw: "plans (snd (clone_original (demo_op None False False) (demo_world [Response ''yes'']))) = [10]"
    by (simp add: clone_original_def demo_op_def demo_world_def)
  from t4 [OF manual(2)] have p4: "\<exists>out w'. PreviewThenPromptThenExecute demo_apply PreviewUpdate (demo_op None False False)
                (demo_world [Response ''yes'']) = Some (out, w') \<and>
      log w' = [Applied PreviewUpdate (demo_op None False False) ?dry [10]]"
    by (simp add: cw) (simp add: demo_world_def)
  from p1 p2 p3 p4 show ?thesis by blast
qed

text \<open>
  Claim C8 as stated fails: with the kind preview-only and \<open>SkipPreview\<close> set,
  \<open>PreviewThenPromptThenExecute\<close> goes straight to the call with \<open>DryRun\<close> false.
\<close>

theorem preview_kind_real_apply_counterexample:
  "PreviewThenPromptThenExecute demo_apply PreviewUpdate (demo_op None False True) (demo_world []) =
   Some (([(''create'', 1)], None),
         \<lparr>plans = [10], env = 1, answers = [],
          log = [Applied PreviewUpdate
                   \<lparr>Opts = \<lparr>Engine = \<lparr>Plan = None, Experimental = False, GeneratePlan = False\<rparr>,
                            AutoApprove = False, SkipPreview = True\<rparr>\<rparr>
                   \<lparr>DryRun = False, ShowLink = True\<rparr> [10]]\<rparr>)"
  by (simp add: apply_defs)

text \<open>
  Claim C9. When the user answers no (after any number of replies that are neither yes nor
  no), \<open>confirmBeforeUpdating\<close> returns a bail, which is not an error; and
  \<open>PreviewThenPromptThenExecute\<close>, having reached the prompt, returns that bail with the
  changes of the dry run, calls no applier after the dry run, and leaves the plans and the
  environment as the dry run left them.
\<close>

theorem declined_confirmation_bails:
  assumes ds: "\<forall>a\<in>set ds. \<exists>r. a = Response r \<and> r \<noteq> yes \<and> r \<noteq> no"
    and ans: "answers w = ds @ Response no # rest"
  shows "(\<exists>w'. confirmBeforeUpdating kind events opts w = Some (Some Bail, w') \<and> answers w' = rest) \<and>
         (\<forall>f. Bail \<noteq> FromError f) \<and>
         (\<not> SkipPreview (Opts op) \<and> \<not> AutoApprove (Opts op) \<and> kind \<noteq> PreviewUpdate \<and>
          apply kind op \<lparr>DryRun = True, ShowLink = True\<rparr> (plans (snd (clone_original op w))) (env w) =
            ((plan, changes, None), evs, ps, e) \<longrightarrow>
            (\<exists>w' ext. PreviewThenPromptThenExecute apply kind op w = Some ((changes, Some Bail), w') \<and>
                log w' = log w @ Applied kind op \<lparr>DryRun = True, ShowLink = True\<rparr>
                                   (plans (snd (clone_original op w))) # ext \<and>
                (\<forall>a\<in>set ext. \<not> real_apply a) \<and>
                plans w' = ps \<and> env w' = e \<and> answers w' = rest))"
proof (intro conjI impI allI)
  from confirmBeforeUpdating_declined [OF ds ans, of kind events opts]
  show "\<exists>w'. confirmBeforeUpdating kind events opts w = Some (Some Bail, w') \<and> answers w' = rest"
    by blast
next
  fix f show "Bail \<noteq> FromError f" by simp
next
  assume h: "\<not> SkipPreview (Opts op) \<and> \<not> AutoApprove (Opts op) \<and> kind \<noteq> PreviewUpdate \<and>
          apply kind op \<lparr>DryRun = True, ShowLink = True\<rparr> (plans (snd (clone_original op w))) (env w) =
            ((plan, changes, None), evs, ps, e)"
  let ?w0 = "snd (clone_original op w)"
  let ?A = "Applied kind op \<lparr>DryRun = True, ShowLink = True\<rparr> (plans ?w0)"
  let ?w1 = "?w0\<lparr>plans := ps, env := e, log := log ?w0 @ [?A]\<rparr>"
  let ?events = "filter (\<lambda>e. Type e = ResourcePreEvent \<or> Type e = ResourceOutputsEvent \<or>
                                     Type e = SummaryEvent) evs"
  note cw = clone_original_world [of op w]
  define w2 where "w2 = (if kind \<noteq> UpdateUpdate then ?w1
                 else if countResources ?events = 0
                   then ?w1\<lparr>log := log ?w1 @ [Printed NoResourcesInfo]\<rparr>
                 else ?w1)"
  have ptp: "PreviewThenPrompt apply kind op ?w0 =
       (case confirmBeforeUpdating kind ?events (Opts op) w2 of
          None \<Rightarrow> None
        | Some (res', w3) \<Rightarrow> Some ((plan, changes, res'), w3))"
    using PreviewThenPrompt_nil [of "apply" kind op ?w0 plan changes evs ps e] h cw
    by (simp add: Let_def w2_def)
  from prompt_world [OF w2_def] obtain pre where
    p2: "answers w2 = answers w" "plans w2 = ps" "env w2 = e"
      "log w2 = log w @ ?A # pre" "\<forall>a\<in>set pre. \<not> real_apply a"
    using cw by auto
  from confirmBeforeUpdating_declined [OF ds, of w2 rest kind ?events "Opts op"] p2(1) ans
  obtain w3 ext where
    c: "confirmBeforeUpdating kind ?events (Opts op) w2 = Some (Some Bail, w3)"
      "answers w3 = rest" "plans w3 = plans w2" "env w3 = env w2"
      "log w3 = log w2 @ ext" "\<forall>a\<in>set ext. \<not> real_apply a"
    by auto
  from ptp c(1) have "PreviewThenPrompt apply kind op ?w0 = Some ((plan, changes, Some Bail), w3)"
    by simp
  then have "PreviewThenPromptThenExecute apply kind op w = Some ((changes, Some Bail), w3)"
    using PreviewThenPromptThenExecute_unfold [of op "apply" kind w] h by simp
  moreover have "log w3 = log w @ ?A # (pre @ ext)" using c(5) p2(4) by simp
  moreover have "\<forall>a\<in>set (pre @ ext). \<not> real_apply a" using c(6) p2(5) by auto
  moreover have "plans w3 = ps" "env w3 = e" using c(3,4) p2(2,3) by simp_all
  ultimately show "\<exists>w' ext. PreviewThenPromptThenExecute apply kind op w = Some ((changes, Some Bail), w') \<and>
                log w' = log w @ Applied kind op \<lparr>DryRun = True, ShowLink = True\<rparr>
                                   (plans (snd (clone_original op w))) # ext \<and>
                (\<forall>a\<in>set ext. \<not> real_apply a) \<and>
                plans w' = ps \<and> env w' = e \<and> answers w' = rest"
    using c(2) by blast
qed

theorem declined_confirmation_bails_witness:
  "''details'' \<noteq> yes \<and> ''details'' \<noteq> no \<and>
   answers (demo_world [Response ''details'', Response ''no'', Response ''yes'']) =
     [Response ''details''] @ Response no # [Response ''yes''] \<and>
   (\<exists>w'. confirmBeforeUpdating UpdateUpdate [] (Opts (demo_op None False False))
            (demo_world [Response ''details'', Response ''no'', Response ''yes'']) = Some (Some Bail, w') \<and>
         answers w' = [Response ''yes'']) \<and>
   (\<exists>w' ext. PreviewThenPromptThenExecute demo_apply UpdateUpdate (demo_op None False False)
            (demo_world [Response ''details'', Response ''no'', Response ''yes'']) =
              Some (([(''create'', 1)], Some Bail), w') \<and>
       log w' = Applied UpdateUpdate (demo_op None False False) \<lparr>DryRun = True, ShowLink = True\<rparr> [10] # ext \<and>
       (\<forall>a\<in>set ext. \<not> real_apply a) \<and>
       plans w' = [10] \<and> env w' = 1 \<and> answers w' = [Response ''yes''])"
proof -
  let ?op = "demo_op None False False"
  let ?w = "demo_world [Response ''details'', Response ''no'', Response ''yes'']"
  let ?dry = "\<lparr>DryRun = True, ShowLink = True\<rparr>"
  let ?ev = "[\<lparr>Type = ResourcePreEvent, Payload = Some ''aws:s3/bucket:Bucket''\<rparr>]"
  have ds: "\<forall>a\<in>set [Response ''details'']. \<exists>r. a = Response r \<and> r \<noteq> yes \<and> r \<noteq> no"
    by (simp add: yes_def no_def)
  have ans: "answers ?w = [Response ''details''] @ Response no # [Response ''yes'']"
    by (simp add: demo_world_def no_def)
  have cw: "plans (snd (clone_original ?op ?w)) = [10]"
    by (simp add: clone_original_def demo_op_def demo_world_def)
  have h: "\<not> SkipPreview (Opts ?op) \<and> \<not> AutoApprove (Opts ?op) \<and> UpdateUpdate \<noteq> PreviewUpdate \<and>
          demo_apply UpdateUpdate ?op ?dry (plans (snd (clone_original ?op ?w))) (env ?w) =
            ((None, [(''create'', 1)], None), ?ev, [10], 1)"
    by (simp add: cw) (simp add: demo_apply_def demo_op_def demo_world_def)
  note t = declined_confirmation_bails [OF ds ans, of UpdateUpdate "[]" "Opts ?op" ?op demo_apply
      None "[(''create'', 1)]" ?ev "[10]" 1]
  from t have a: "\<exists>w'. confirmBeforeUpdating UpdateUpdate [] (Opts ?op) ?w = Some (Some Bail, w') \<and>
         answers w' = [Response ''yes'']" by blast
  from t h have "\<exists>w' ext. PreviewThenPromptThenExecute demo_apply UpdateUpdate ?op ?w =
              Some (([(''create'', 1)], Some Bail), w') \<and>
       log w' = log ?w @ Applied UpdateUpdate ?op ?dry (plans (snd (clone_original ?op ?w))) # ext \<and>
       (\<forall>a\<in>set ext. \<not> real_apply a) \<and>
       plans w' = [10] \<and> env w' = 1 \<and> answers w' = [Response ''yes'']" by blast
  then have b: "\<exists>w' ext. PreviewThenPromptThenExecute demo_apply UpdateUpdate ?op ?w =
              Some (([(''create'', 1)], Some Bail), w') \<and>
       log w' = Applied UpdateUpdate ?op ?dry [10] # ext \<and>
       (\<forall>a\<in>set ext. \<not> real_apply a) \<and>
       plans w' = [10] \<and> env w' = 1 \<and> answers w' = [Response ''yes'']"
    by (simp add: cw) (simp add: demo_world_def)
  have "''details'' \<noteq> yes \<and> ''details'' \<noteq> no" by (simp add: yes_def no_def)
  with ans a b show ?thesis by blast
qed

end
